theory Spec2Isabelle
  imports Main "HOL-Library.AList" "HOL-Library.Char_ord" "HOL-Library.List_Lexorder"
begin

section \<open>ORCA: the scheduler, the container manager and the document store\<close>

text \<open>
  The development embeds three packages of the repository:
  \<^item> \<open>pkg/container\<close>: the types and the \<open>Manager\<close> that talks to Docker;
  \<^item> \<open>pkg/scheduler\<close>: the registry of deployments and services;
  \<^item> \<open>pkg/storage\<close>: one JSON document per deployment under a data directory.

  The repository carries two copies of the scheduler. They agree on every function
  except \<open>CreateService\<close>: the longer copy calls \<open>validatePortConflicts\<close> after the
  name check, the shorter one does not have that function. The longer copy is the one
  embedded here.

  Conventions of the embedding.
  \<^item> A Go \<open>map[string]T\<close> is an association list with distinct keys; the order of the list
    stands for the order in which one \<open>range\<close> loop happens to visit the entries. A \<open>nil\<close>
    map is told apart from an empty one (by \<open>option\<close>) only where the code tests for it.
  \<^item> Go's \<open>int\<close> is taken to be 64 bits wide; it is an \<open>int\<close> here, with the wrap-around of
    \<open>+\<close> written out in \<open>addInt\<close>.
  \<^item> Errors are values of the datatype \<open>error\<close>, one constructor for each \<open>fmt.Errorf\<close> of
    the source; a run-time panic is the constructor \<open>Panic\<close>.
  \<^item> Docker, the clock and the file system are outside the program. Docker's answers are
    the fields of an \<open>env\<close>, each a function of the calls made so far; every call of a
    \<open>Manager\<close> method is recorded in the \<open>world\<close>.
  \<^item> Logging is left out of the scheduler (it has no effect on any result); the warnings
    of the store are kept, since a property below counts them.
  \<^item> \<open>encoding/json\<close> is a parameter of the store; the path separator is \<open>/\<close>.
  \<^item> Locks are left out: every operation holds the lock of its object from its first
    step to its last, so the operations are modelled as atomic steps.
  \<^item> An allocation that the Go runtime refuses is a panic; of the allocations of the
    program only the one whose size is an input (the replica slice) can be refused here.
\<close>

subsection \<open>Functions of Go's standard library\<close>

definition isDigit :: "char \<Rightarrow> bool" where
  "isDigit c = (c \<in> set ''0123456789'')"

definition digitVal :: "char \<Rightarrow> int" where
  "digitVal c = int (of_char c) - 48"

definition decimalValue :: "string \<Rightarrow> int" where
  "decimalValue ds = foldl (\<lambda>acc c. 10 * acc + digitVal c) 0 ds"

definition minInt :: int where
  "minInt = - (2 ^ 63)"

definition maxInt :: int where
  "maxInt = 2 ^ 63 - 1"

text \<open>
  \<open>strconv.ParseInt(s, 10, 64)\<close>: an optional sign, then one or more decimal digits and
  nothing else; a value outside the 64-bit range is an error. \<open>strconv.Atoi\<close> returns the
  same value and fails on the same strings.
\<close>

definition ParseInt :: "string \<Rightarrow> int option" where
  "ParseInt s =
     (case s of
        [] \<Rightarrow> None
      | c # r \<Rightarrow>
          (let neg = (c = CHR ''-'');
               ds = (if c = CHR ''+'' \<or> c = CHR ''-'' then r else s)
           in if ds = [] \<or> \<not> list_all isDigit ds then None
              else (let v = (if neg then - decimalValue ds else decimalValue ds)
                    in if minInt \<le> v \<and> v \<le> maxInt then Some v else None)))"

definition Atoi :: "string \<Rightarrow> int option" where
  "Atoi s = ParseInt s"

text \<open>
  The white space of package \<open>fmt\<close> (its table \<open>space\<close>), as UTF-8: \<open>spaceWidth s\<close> is the
  number of bytes of the first rune of \<open>s\<close> when that rune is a space, and 0 otherwise.
\<close>

definition spaceWidth :: "string \<Rightarrow> nat" where
  "spaceWidth s =
     (case map of_char s of
        [] \<Rightarrow> 0
      | b0 # bs \<Rightarrow>
          if (9::nat) \<le> b0 \<and> b0 \<le> 13 \<or> b0 = 32 then 1
          else if b0 = 194 then
            (case bs of
               b1 # _ \<Rightarrow> if b1 = 133 \<or> b1 = 160 then 2 else 0
             | [] \<Rightarrow> 0)
          else if b0 = 225 then
            (case bs of
               b1 # b2 # _ \<Rightarrow> if b1 = 154 \<and> b2 = 128 then 3 else 0
             | _ \<Rightarrow> 0)
          else if b0 = 226 then
            (case bs of
               b1 # b2 # _ \<Rightarrow>
                 if b1 = 128 \<and> (128 \<le> b2 \<and> b2 \<le> 138 \<or> b2 = 168 \<or> b2 = 169 \<or> b2 = 175)
                    \<or> b1 = 129 \<and> b2 = 159
                 then 3 else 0
             | _ \<Rightarrow> 0)
          else if b0 = 227 then
            (case bs of
               b1 # b2 # _ \<Rightarrow> if b1 = 128 \<and> b2 = 128 then 3 else 0
             | _ \<Rightarrow> 0)
          else 0)"

datatype scanError = UnexpectedNewline | UnexpectedEOF | ExpectedInteger | OutOfRange

text \<open>
  \<open>(*ss).SkipSpace\<close> of a scan where a newline is not a space (\<open>Sscanf\<close>): spaces are read
  over, a newline is an error.
\<close>

function SkipSpace :: "string \<Rightarrow> scanError + string" where
  "SkipSpace s =
     (if s = [] then Inr []
      else if hd s = CHR 0x0A then Inl UnexpectedNewline
      else if spaceWidth s = 0 then Inr s
      else SkipSpace (drop (spaceWidth s) s))"
  by pat_completeness auto
termination
  by (relation "measure length") auto

declare SkipSpace.simps [simp del]

text \<open>
  \<open>fmt.Sscanf(s, "%d", &result)\<close>: leading space is skipped, one sign is accepted, at least
  one digit is required, the digits that follow are read, and the token is converted by
  \<open>ParseInt\<close>. What follows the digits is not looked at. On an error nothing is stored.
\<close>

definition Sscanf_d :: "string \<Rightarrow> scanError + int" where
  "Sscanf_d s =
     (case SkipSpace s of
        Inl e \<Rightarrow> Inl e
      | Inr r \<Rightarrow>
          if r = [] then Inl UnexpectedEOF
          else (let sgn = (if hd r = CHR ''+'' \<or> hd r = CHR ''-'' then [hd r] else []);
                    r1 = drop (length sgn) r
                in if r1 = [] then Inl UnexpectedEOF
                   else (let tok = takeWhile isDigit r1
                         in if tok = [] then Inl ExpectedInteger
                            else (case ParseInt (sgn @ tok) of
                                    None \<Rightarrow> Inl OutOfRange
                                  | Some v \<Rightarrow> Inr v))))"

text \<open>\<open>fmt.Sprintf("%d", n)\<close>.\<close>

fun natDigits :: "nat \<Rightarrow> string" where
  "natDigits n =
     (if n < 10 then [''0123456789'' ! n]
      else natDigits (n div 10) @ [''0123456789'' ! (n mod 10)])"

declare natDigits.simps [simp del]

definition itoa :: "int \<Rightarrow> string" where
  "itoa n = (if n < 0 then CHR ''-'' # natDigits (nat (- n)) else natDigits (nat n))"

text \<open>Addition of two 64-bit \<open>int\<close>s.\<close>

definition addInt :: "int \<Rightarrow> int \<Rightarrow> int" where
  "addInt a b = (a + b + 2 ^ 63) mod 2 ^ 64 - 2 ^ 63"

text \<open>\<open>strings.Split(s, "/")\<close>.\<close>

fun splitSlash :: "string \<Rightarrow> string list" where
  "splitSlash [] = [Nil]"
| "splitSlash (c # cs) =
     (if c = CHR ''/'' then [] # splitSlash cs
      else (case splitSlash cs of
              [] \<Rightarrow> [c # Nil]
            | p # ps \<Rightarrow> (c # p) # ps))"

subsection \<open>Package container: the types\<close>

type_synonym time = int

record VolumeMount =
  vm_Source :: string
  vm_Destination :: string
  vm_ReadOnly :: bool

record ContainerSpec =
  cs_Name :: string
  cs_Image :: string
  cs_Ports :: "(string \<times> string) list option"
  cs_Environment :: "(string \<times> string) list"
  cs_Labels :: "(string \<times> string) list"
  cs_Command :: "string list"
  cs_Args :: "string list"
  cs_WorkingDir :: string
  cs_Volumes :: "VolumeMount list"

record Container =
  c_ID :: string
  c_Name :: string
  c_Image :: string
  c_Status :: string
  c_Ports :: "(string \<times> string) list option"
  c_Environment :: "(string \<times> string) list"
  c_Labels :: "(string \<times> string) list"
  c_Created :: time
  c_Started :: "time option"

record DeploymentSpec =
  ds_Name :: string
  ds_Replicas :: int
  ds_Container :: ContainerSpec
  ds_Strategy :: string

record ServicePort =
  sp_Port :: int
  sp_TargetPort :: int

record ServiceSpec =
  ss_Name :: string
  ss_Type :: string
  ss_Selector :: "(string \<times> string) list"
  ss_Ports :: "ServicePort list"

subsection \<open>Package container: the manager\<close>

text \<open>
  A call of a method of the \<open>Manager\<close>, as the scheduler makes it. The \<open>world\<close> holds
  the calls made so far, oldest first, and the number of times the clock has been read.
  The \<open>env\<close> holds what is outside the program: whether \<open>nat.NewPort\<close> accepts a
  protocol and a port, what the Docker client answers to a request given the calls made
  before it (for \<open>ContainerCreate\<close> the ID of the new container, or \<open>None\<close> for an
  error; for the others whether the request succeeds), the readings of the clock, and
  \<open>allocLimit\<close>, the largest number of bytes that one allocation of the Go runtime can
  have (its \<open>maxAlloc\<close>, \<open>2 ^ 48\<close> on linux/amd64, or less when memory is short).
\<close>

datatype call =
    Create ContainerSpec
  | Start string
  | Stop string
  | Remove string

record world =
  calls :: "call list"
  ticks :: nat

record env =
  newPortOk :: "string \<Rightarrow> string \<Rightarrow> bool"
  containerCreate :: "call list \<Rightarrow> ContainerSpec \<Rightarrow> string option"
  containerStart :: "call list \<Rightarrow> string \<Rightarrow> bool"
  containerStop :: "call list \<Rightarrow> string \<Rightarrow> bool"
  containerRemove :: "call list \<Rightarrow> string \<Rightarrow> bool"
  clock :: "nat \<Rightarrow> time"
  allocLimit :: nat

datatype runtimeError = InvalidPort string | DockerError

definition timeNow :: "env \<Rightarrow> world \<Rightarrow> time \<times> world" where
  "timeNow E w = (clock E (ticks w), w\<lparr>ticks := Suc (ticks w)\<rparr>)"

text \<open>
  The first part of \<open>Manager.Create\<close>: every container port is split at \<open>/\<close> into port and
  protocol (protocol \<open>tcp\<close> unless there are exactly two parts) and given to
  \<open>nat.NewPort\<close>; the first port it refuses ends the call.
\<close>

fun portBindings :: "env \<Rightarrow> (string \<times> string) list \<Rightarrow> string option" where
  "portBindings E [] = None"
| "portBindings E ((containerPort, hostPort) # ps) =
     (let parts = splitSlash containerPort;
          portStr = (if CHR ''/'' \<in> set containerPort \<and> length parts = 2
                     then parts ! 0 else containerPort);
          protocol = (if CHR ''/'' \<in> set containerPort \<and> length parts = 2
                      then parts ! 1 else ''tcp'')
      in if \<not> newPortOk E protocol portStr then Some containerPort
         else portBindings E ps)"

definition Manager_Create ::
  "env \<Rightarrow> world \<Rightarrow> ContainerSpec \<Rightarrow> (runtimeError + Container) \<times> world" where
  "Manager_Create E w spec =
     (let w1 = w\<lparr>calls := calls w @ [Create spec]\<rparr>
      in case portBindings E (case cs_Ports spec of None \<Rightarrow> [] | Some ps \<Rightarrow> ps) of
           Some containerPort \<Rightarrow> (Inl (InvalidPort containerPort), w1)
         | None \<Rightarrow>
             (case containerCreate E (calls w) spec of
                None \<Rightarrow> (Inl DockerError, w1)
              | Some respID \<Rightarrow>
                  (let (now, w2) = timeNow E w1
                   in (Inr \<lparr>c_ID = respID, c_Name = cs_Name spec, c_Image = cs_Image spec,
                            c_Status = ''created'', c_Ports = cs_Ports spec,
                            c_Environment = cs_Environment spec, c_Labels = cs_Labels spec,
                            c_Created = now, c_Started = None\<rparr>, w2))))"

definition Manager_Start :: "env \<Rightarrow> world \<Rightarrow> string \<Rightarrow> runtimeError option \<times> world" where
  "Manager_Start E w containerID =
     (if containerStart E (calls w) containerID then None else Some DockerError,
      w\<lparr>calls := calls w @ [Start containerID]\<rparr>)"

definition Manager_Stop :: "env \<Rightarrow> world \<Rightarrow> string \<Rightarrow> runtimeError option \<times> world" where
  "Manager_Stop E w containerID =
     (if containerStop E (calls w) containerID then None else Some DockerError,
      w\<lparr>calls := calls w @ [Stop containerID]\<rparr>)"

definition Manager_Remove :: "env \<Rightarrow> world \<Rightarrow> string \<Rightarrow> runtimeError option \<times> world" where
  "Manager_Remove E w containerID =
     (if containerRemove E (calls w) containerID then None else Some DockerError,
      w\<lparr>calls := calls w @ [Remove containerID]\<rparr>)"

subsection \<open>Package scheduler: the registry\<close>

record Deployment =
  d_ID :: string
  d_Name :: string
  d_Spec :: DeploymentSpec
  d_Status :: string
  d_Replicas :: "Container list"
  d_Created :: time

record Service =
  svc_ID :: string
  svc_Name :: string
  svc_Spec :: ServiceSpec
  svc_Endpoints :: "string list"
  svc_Status :: string
  svc_Created :: time

record Scheduler =
  deployments :: "(string \<times> Deployment) list"
  services :: "(string \<times> Service) list"

datatype portError =
    InvalidPortNumber int
  | InvalidTargetPort int
  | PortInUseSameService int
  | PortInUseByService int string
  | PortInUseByDeployment int string string

datatype error =
    DeploymentExists string
  | DeploymentNotFound string
  | ReplicaCreateFailed nat runtimeError
  | ReplicaStartFailed nat runtimeError
  | CleanupFailed error
  | ServiceExists string
  | ServiceNotFound string
  | PortConflict portError
  | Panic string

definition NewScheduler :: Scheduler where
  "NewScheduler = \<lparr>deployments = [], services = []\<rparr>"

definition generateID :: "env \<Rightarrow> world \<Rightarrow> string \<times> world" where
  "generateID E w = (let (now, w1) = timeNow E w in (itoa now, w1))"

definition mustParseInt :: "string \<Rightarrow> int" where
  "mustParseInt s = (case Sscanf_d s of Inl e \<Rightarrow> 0 | Inr result \<Rightarrow> result)"

fun cleanupDeployment :: "env \<Rightarrow> Container list \<Rightarrow> world \<Rightarrow> error option \<times> world" where
  "cleanupDeployment E [] w = (None, w)"
| "cleanupDeployment E (c # cs) w =
     (let (err1, w1) = Manager_Stop E w (c_ID c);
          (err2, w2) = Manager_Remove E w1 (c_ID c)
      in cleanupDeployment E cs w2)"

text \<open>Lines 80 to 87 of \<open>CreateDeployment\<close>: the ports of replica \<open>i\<close>.\<close>

definition replicaPorts :: "(string \<times> string) list \<Rightarrow> nat \<Rightarrow> (string \<times> string) list" where
  "replicaPorts basePorts i =
     fold (\<lambda>(containerPort, baseHostPort) ports.
             AList.update containerPort (itoa (addInt (mustParseInt baseHostPort) (int i))) ports)
          basePorts []"

definition replicaSpec :: "DeploymentSpec \<Rightarrow> nat \<Rightarrow> ContainerSpec" where
  "replicaSpec spec i =
     (ds_Container spec)
       \<lparr>cs_Name := ds_Name spec @ ''-'' @ itoa (int i),
        cs_Ports := (case cs_Ports (ds_Container spec) of
                       None \<Rightarrow> None
                     | Some basePorts \<Rightarrow> Some (replicaPorts basePorts i))\<rparr>"

text \<open>
  The loop over the replicas, from index \<open>i\<close> on. The deployment under construction is
  threaded through, since the cleanup reads the replicas appended so far.
\<close>

function createReplicas ::
  "env \<Rightarrow> DeploymentSpec \<Rightarrow> nat \<Rightarrow> Deployment \<Rightarrow> world \<Rightarrow> (error + Deployment) \<times> world" where
  "createReplicas E spec i deployment w =
     (if int i < ds_Replicas spec then
        (case Manager_Create E w (replicaSpec spec i) of
           (Inl err, w1) \<Rightarrow>
             (Inl (ReplicaCreateFailed i err), snd (cleanupDeployment E (d_Replicas deployment) w1))
         | (Inr c, w1) \<Rightarrow>
             (case Manager_Start E w1 (c_ID c) of
                (Some err, w2) \<Rightarrow>
                  (Inl (ReplicaStartFailed i err),
                   snd (cleanupDeployment E (d_Replicas deployment) w2))
              | (None, w2) \<Rightarrow>
                  createReplicas E spec (Suc i)
                    (deployment\<lparr>d_Replicas := d_Replicas deployment @ [c\<lparr>c_Status := ''running''\<rparr>]\<rparr>)
                    w2))
      else (Inr deployment, w))"
  by pat_completeness auto
termination
  by (relation "measure (\<lambda>(E, spec, i, deployment, w). nat (ds_Replicas spec) - i)") auto

declare createReplicas.simps [simp del]

text \<open>
  Lines 65 to 72: the new deployment. \<open>make([]*container.Container, 0, n)\<close> asks the
  runtime (\<open>makeslice\<close>) for \<open>n\<close> pointers of 8 bytes; it panics when \<open>n\<close> is negative,
  when \<open>8 * n\<close> does not fit 64 bits, and when \<open>8 * n\<close> is more than can be allocated. The
  panic comes after \<open>generateID\<close> has read the clock and before \<open>time.Now\<close> is called.
\<close>

definition newDeployment :: "env \<Rightarrow> world \<Rightarrow> DeploymentSpec \<Rightarrow> (error + Deployment) \<times> world" where
  "newDeployment E w spec =
     (let (newID, w1) = generateID E w
      in if ds_Replicas spec < 0 \<or> 2 ^ 64 \<le> 8 * ds_Replicas spec \<or>
            int (allocLimit E) < 8 * ds_Replicas spec
         then (Inl (Panic ''makeslice: cap out of range''), w1)
         else (let (now, w2) = timeNow E w1
               in (Inr \<lparr>d_ID = newID, d_Name = ds_Name spec, d_Spec = spec,
                        d_Status = ''creating'', d_Replicas = [], d_Created = now\<rparr>, w2)))"

definition deploymentNameTaken :: "(string \<times> Deployment) list \<Rightarrow> string \<Rightarrow> bool" where
  "deploymentNameTaken ds name = list_ex (\<lambda>(key, d). d_Name d = name) ds"

definition CreateDeployment ::
  "env \<Rightarrow> Scheduler \<Rightarrow> world \<Rightarrow> DeploymentSpec \<Rightarrow> (error + Deployment) \<times> Scheduler \<times> world" where
  "CreateDeployment E s w spec =
     (if deploymentNameTaken (deployments s) (ds_Name spec)
      then (Inl (DeploymentExists (ds_Name spec)), s, w)
      else (case newDeployment E w spec of
              (Inl err, w1) \<Rightarrow> (Inl err, s, w1)
            | (Inr deployment, w1) \<Rightarrow>
                (case createReplicas E spec 0 deployment w1 of
                   (Inl err, w2) \<Rightarrow> (Inl err, s, w2)
                 | (Inr deployment', w2) \<Rightarrow>
                     (let d = deployment'\<lparr>d_Status := ''running''\<rparr>
                      in (Inr d, s\<lparr>deployments := AList.update (d_ID d) d (deployments s)\<rparr>, w2)))))"

definition DeleteDeployment ::
  "env \<Rightarrow> Scheduler \<Rightarrow> world \<Rightarrow> string \<Rightarrow> error option \<times> Scheduler \<times> world" where
  "DeleteDeployment E s w name =
     (case find (\<lambda>(key, d). d_Name d = name) (deployments s) of
        None \<Rightarrow> (Some (DeploymentNotFound name), s, w)
      | Some (deploymentID, deployment) \<Rightarrow>
          (case cleanupDeployment E (d_Replicas deployment) w of
             (Some err, w1) \<Rightarrow> (Some (CleanupFailed err), s, w1)
           | (None, w1) \<Rightarrow>
               (None, s\<lparr>deployments := AList.delete deploymentID (deployments s)\<rparr>, w1)))"

subsection \<open>Package scheduler: services\<close>

text \<open>The first loop of \<open>validatePortConflicts\<close>; \<open>usedPorts\<close> holds the ports seen so far.\<close>

fun checkOwnPorts :: "ServicePort list \<Rightarrow> int list \<Rightarrow> portError option" where
  "checkOwnPorts [] usedPorts = None"
| "checkOwnPorts (port # ports) usedPorts =
     (if sp_Port port \<le> 0 \<or> sp_Port port > 65535 then Some (InvalidPortNumber (sp_Port port))
      else if sp_TargetPort port \<le> 0 \<or> sp_TargetPort port > 65535
           then Some (InvalidTargetPort (sp_TargetPort port))
      else if sp_Port port \<in> set usedPorts then Some (PortInUseSameService (sp_Port port))
      else checkOwnPorts ports (sp_Port port # usedPorts))"

text \<open>The innermost loop of the second and third part: the first new port equal to \<open>p\<close>.\<close>

fun matchNewPort :: "int \<Rightarrow> ServicePort list \<Rightarrow> int option" where
  "matchNewPort p [] = None"
| "matchNewPort p (newPort # ports) =
     (if p = sp_Port newPort then Some (sp_Port newPort) else matchNewPort p ports)"

fun checkExistingPorts :: "string \<Rightarrow> ServicePort list \<Rightarrow> ServicePort list \<Rightarrow> portError option" where
  "checkExistingPorts name [] ports = None"
| "checkExistingPorts name (existingPort # rest) ports =
     (case matchNewPort (sp_Port existingPort) ports of
        Some p \<Rightarrow> Some (PortInUseByService p name)
      | None \<Rightarrow> checkExistingPorts name rest ports)"

fun checkServices :: "(string \<times> Service) list \<Rightarrow> ServicePort list \<Rightarrow> portError option" where
  "checkServices [] ports = None"
| "checkServices ((key, existingService) # rest) ports =
     (case checkExistingPorts (svc_Name existingService)
             (ss_Ports (svc_Spec existingService)) ports of
        Some err \<Rightarrow> Some err
      | None \<Rightarrow> checkServices rest ports)"

fun checkReplicaPorts :: "string \<Rightarrow> (string \<times> string) list \<Rightarrow> ServicePort list \<Rightarrow> portError option" where
  "checkReplicaPorts name [] ports = None"
| "checkReplicaPorts name ((containerPort, hostPortStr) # rest) ports =
     (case Atoi hostPortStr of
        None \<Rightarrow> checkReplicaPorts name rest ports
      | Some hostPort \<Rightarrow>
          (case matchNewPort hostPort ports of
             Some p \<Rightarrow> Some (PortInUseByDeployment p name containerPort)
           | None \<Rightarrow> checkReplicaPorts name rest ports))"

fun checkReplicas :: "string \<Rightarrow> Container list \<Rightarrow> ServicePort list \<Rightarrow> portError option" where
  "checkReplicas name [] ports = None"
| "checkReplicas name (replica # rest) ports =
     (case checkReplicaPorts name (case c_Ports replica of None \<Rightarrow> [] | Some ps \<Rightarrow> ps) ports of
        Some err \<Rightarrow> Some err
      | None \<Rightarrow> checkReplicas name rest ports)"

fun checkDeployments :: "(string \<times> Deployment) list \<Rightarrow> ServicePort list \<Rightarrow> portError option" where
  "checkDeployments [] ports = None"
| "checkDeployments ((key, deployment) # rest) ports =
     (if cs_Ports (ds_Container (d_Spec deployment)) \<noteq> None then
        (case checkReplicas (d_Name deployment) (d_Replicas deployment) ports of
           Some err \<Rightarrow> Some err
         | None \<Rightarrow> checkDeployments rest ports)
      else checkDeployments rest ports)"

definition validatePortConflicts :: "Scheduler \<Rightarrow> ServicePort list \<Rightarrow> portError option" where
  "validatePortConflicts s ports =
     (case checkOwnPorts ports [] of
        Some err \<Rightarrow> Some err
      | None \<Rightarrow>
          (case checkServices (services s) ports of
             Some err \<Rightarrow> Some err
           | None \<Rightarrow> checkDeployments (deployments s) ports))"

definition serviceNameTaken :: "(string \<times> Service) list \<Rightarrow> string \<Rightarrow> bool" where
  "serviceNameTaken svcs name = list_ex (\<lambda>(key, svc). svc_Name svc = name) svcs"

definition CreateService ::
  "env \<Rightarrow> Scheduler \<Rightarrow> world \<Rightarrow> ServiceSpec \<Rightarrow> (error + Service) \<times> Scheduler \<times> world" where
  "CreateService E s w spec =
     (if serviceNameTaken (services s) (ss_Name spec)
      then (Inl (ServiceExists (ss_Name spec)), s, w)
      else (case validatePortConflicts s (ss_Ports spec) of
              Some err \<Rightarrow> (Inl (PortConflict err), s, w)
            | None \<Rightarrow>
                (let (newID, w1) = generateID E w;
                     (now, w2) = timeNow E w1;
                     service = \<lparr>svc_ID = newID, svc_Name = ss_Name spec, svc_Spec = spec,
                                svc_Endpoints = [], svc_Status = ''active'', svc_Created = now\<rparr>
                 in (Inr service, s\<lparr>services := AList.update (svc_ID service) service (services s)\<rparr>,
                     w2))))"

subsection \<open>The HTTP handler for creating a deployment\<close>

datatype httpStatus = StatusOK | StatusBadRequest | StatusInternalServerError

text \<open>
  \<open>createDeploymentHandler\<close>. The body is given decoded (\<open>None\<close> when it is not valid JSON);
  the answer is the status and, on success, the deployment that is encoded into the
  response. The scheduler is only reached with \<open>1 \<le> Replicas \<le> 100\<close>.
\<close>

definition createDeploymentHandler ::
  "env \<Rightarrow> Scheduler \<Rightarrow> world \<Rightarrow> DeploymentSpec option \<Rightarrow>
     (httpStatus \<times> Deployment option) \<times> Scheduler \<times> world" where
  "createDeploymentHandler E s w body =
     (case body of
        None \<Rightarrow> ((StatusBadRequest, None), s, w)
      | Some spec \<Rightarrow>
          if ds_Name spec = [] then ((StatusBadRequest, None), s, w)
          else if ds_Replicas spec < 1 then ((StatusBadRequest, None), s, w)
          else if ds_Replicas spec > 100 then ((StatusBadRequest, None), s, w)
          else if cs_Name (ds_Container spec) = [] then ((StatusBadRequest, None), s, w)
          else if cs_Image (ds_Container spec) = [] then ((StatusBadRequest, None), s, w)
          else (case CreateDeployment E s w spec of
                  (Inl err, s', w') \<Rightarrow> ((StatusInternalServerError, None), s', w')
                | (Inr deployment, s', w') \<Rightarrow> ((StatusOK, Some deployment), s', w')))"

text \<open>The error kinds of the specification (its section 7), and the kind of each error.\<close>

datatype errorKind = AlreadyExists | NotFound | ValidationError | RuntimeError | Fault

fun kindOf :: "error \<Rightarrow> errorKind" where
  "kindOf (DeploymentExists name) = AlreadyExists"
| "kindOf (ServiceExists name) = AlreadyExists"
| "kindOf (DeploymentNotFound name) = NotFound"
| "kindOf (ServiceNotFound name) = NotFound"
| "kindOf (PortConflict err) = ValidationError"
| "kindOf (ReplicaCreateFailed i err) = RuntimeError"
| "kindOf (ReplicaStartFailed i err) = RuntimeError"
| "kindOf (CleanupFailed err) = RuntimeError"
| "kindOf (Panic msg) = Fault"

subsection \<open>Package storage\<close>

text \<open>
  The file system, as far as the store uses it. A directory is the list of its entries,
  in the order of their names (the order in which \<open>ioutil.ReadDir\<close> returns them); an
  entry is a readable file with its content, or something that cannot be read (a file
  without permission, a directory). A path is kept as the elements of the directory and
  the name of the entry, the arguments that \<open>filepath.Join\<close> is called with.
  \<open>ioutil.WriteFile\<close> fails when the directory is missing or the entry cannot be
  written; other failures of writing are not modelled.
\<close>

datatype 'a node = File 'a | Locked

type_synonym 'a directory = "(string \<times> 'a node) list"

type_synonym 'a fsys = "string list \<Rightarrow> 'a directory option"

datatype ioError = NotExist | PermissionDenied

definition ReadDir :: "'a fsys \<Rightarrow> string list \<Rightarrow> ioError + string list" where
  "ReadDir fs dir = (case fs dir of None \<Rightarrow> Inl NotExist | Some entries \<Rightarrow> Inr (map fst entries))"

definition ReadFile :: "'a fsys \<Rightarrow> string list \<Rightarrow> string \<Rightarrow> ioError + 'a" where
  "ReadFile fs dir name =
     (case fs dir of
        None \<Rightarrow> Inl NotExist
      | Some entries \<Rightarrow>
          (case map_of entries name of
             None \<Rightarrow> Inl NotExist
           | Some Locked \<Rightarrow> Inl PermissionDenied
           | Some (File data) \<Rightarrow> Inr data))"



text \<open>
  \<open>filepath.Ext\<close>: the suffix of the path from the last dot of its last element on, empty
  when that element has no dot. \<open>ExtFrom\<close> walks the path from its end; \<open>seen\<close> is
  what it has passed.
\<close>

fun ExtFrom :: "string \<Rightarrow> string \<Rightarrow> string" where
  "ExtFrom [] seen = []"
| "ExtFrom (c # cs) seen =
     (if c = CHR ''/'' then []
      else if c = CHR ''.'' then c # seen
      else ExtFrom cs (c # seen))"

definition Ext :: "string \<Rightarrow> string" where
  "Ext path = ExtFrom (rev path) []"

text \<open>
  \<open>encoding/json\<close> is a parameter: \<open>marshal\<close> stands for \<open>json.MarshalIndent\<close> of a
  deployment (\<open>None\<close> when it fails), \<open>unmarshal\<close> for \<open>json.Unmarshal\<close> into an empty
  \<open>Deployment\<close> (\<open>None\<close> when it fails).
\<close>

record 'a codec =
  marshal :: "Deployment \<Rightarrow> 'a option"
  unmarshal :: "'a \<Rightarrow> Deployment option"

record Storage =
  dataDir :: string

datatype storageError =
    SerializeFailed
  | SaveFailed ioError
  | DocumentNotFound string
  | ReadFailed ioError
  | ParseFailed
  | ReadDirFailed ioError

datatype warning = FileUnreadable string ioError | FileUnparsable string



text \<open>The loop of \<open>LoadAllDeployments\<close> over the entries of the directory.\<close>

fun loadFiles ::
  "'a codec \<Rightarrow> 'a fsys \<Rightarrow> string list \<Rightarrow> string list \<Rightarrow> Deployment list \<Rightarrow> warning list \<Rightarrow>
     Deployment list \<times> warning list" where
  "loadFiles C fs deploymentsDir [] deps warnings = (deps, warnings)"
| "loadFiles C fs deploymentsDir (name # files) deps warnings =
     (if Ext name \<noteq> ''.json'' then loadFiles C fs deploymentsDir files deps warnings
      else (case ReadFile fs deploymentsDir name of
              Inl err \<Rightarrow>
                loadFiles C fs deploymentsDir files deps (warnings @ [FileUnreadable name err])
            | Inr data \<Rightarrow>
                (case unmarshal C data of
                   None \<Rightarrow>
                     loadFiles C fs deploymentsDir files deps (warnings @ [FileUnparsable name])
                 | Some deployment \<Rightarrow>
                     loadFiles C fs deploymentsDir files (deps @ [deployment]) warnings)))"

definition LoadAllDeployments ::
  "'a codec \<Rightarrow> Storage \<Rightarrow> 'a fsys \<Rightarrow> (storageError + Deployment list) \<times> warning list" where
  "LoadAllDeployments C s fs =
     (case ReadDir fs [dataDir s, ''deployments''] of
        Inl err \<Rightarrow> (Inl (ReadDirFailed err), [])
      | Inr files \<Rightarrow>
          (let (deps, warnings) = loadFiles C fs [dataDir s, ''deployments''] files [] []
           in (Inr deps, warnings)))"

subsection \<open>Notions used to state the properties\<close>

text \<open>The calls that a cleanup of the replicas \<open>cs\<close> makes: \<open>Stop\<close>, then \<open>Remove\<close>, for each.\<close>

definition cleanupCalls :: "Container list \<Rightarrow> call list" where
  "cleanupCalls cs = concat (map (\<lambda>c. [Stop (c_ID c), Remove (c_ID c)]) cs)"

text \<open>A runtime whose every \<open>Create\<close> and \<open>Start\<close> succeeds.\<close>

definition runtimeAlwaysSucceeds :: "env \<Rightarrow> bool" where
  "runtimeAlwaysSucceeds E \<longleftrightarrow>
     (\<forall>protocol portStr. newPortOk E protocol portStr) \<and>
     (\<forall>history spec. containerCreate E history spec \<noteq> None) \<and>
     (\<forall>history containerID. containerStart E history containerID)"

text \<open>
  Every \<open>Create\<close> and \<open>Start\<close> call of a run succeeded. \<open>callSucceeds E history c\<close>: the
  call \<open>c\<close>, made after the calls \<open>history\<close>, returns no error (\<open>Manager.Create\<close> fails when
  \<open>nat.NewPort\<close> refuses a port or Docker refuses the request, \<open>Manager.Start\<close> when Docker
  refuses; nothing is asked of \<open>Stop\<close> and \<open>Remove\<close>). \<open>runSucceeds E w w'\<close>: every call
  recorded in \<open>w'\<close> after those of \<open>w\<close> succeeded.
\<close>

definition callSucceeds :: "env \<Rightarrow> call list \<Rightarrow> call \<Rightarrow> bool" where
  "callSucceeds E history c =
     (case c of
        Create spec \<Rightarrow>
          portBindings E (case cs_Ports spec of None \<Rightarrow> [] | Some ps \<Rightarrow> ps) = None \<and>
          containerCreate E history spec \<noteq> None
      | Start containerID \<Rightarrow> containerStart E history containerID
      | Stop containerID \<Rightarrow> True
      | Remove containerID \<Rightarrow> True)"

fun allSucceed :: "env \<Rightarrow> call list \<Rightarrow> call list \<Rightarrow> bool" where
  "allSucceed E history [] = True"
| "allSucceed E history (c # cs) = (callSucceeds E history c \<and> allSucceed E (history @ [c]) cs)"

definition runSucceeds :: "env \<Rightarrow> world \<Rightarrow> world \<Rightarrow> bool" where
  "runSucceeds E w w' = allSucceed E (calls w) (drop (length (calls w)) (calls w'))"

text \<open>
  Decimal notation. \<open>decimalNumeral s n\<close>: the string \<open>s\<close> is one or more decimal digits
  whose value is \<open>n\<close>. \<open>renders s m\<close>: \<open>s\<close> is the decimal rendering of the integer \<open>m\<close>,
  its digits without a leading zero (the single digit \<open>0\<close> for zero), after a minus sign
  when \<open>m\<close> is negative.
\<close>

definition decimalNumeral :: "string \<Rightarrow> nat \<Rightarrow> bool" where
  "decimalNumeral s n \<longleftrightarrow> s \<noteq> [] \<and> list_all isDigit s \<and> decimalValue s = int n"

definition renders :: "string \<Rightarrow> int \<Rightarrow> bool" where
  "renders s m \<longleftrightarrow>
     (if m = 0 then s = ''0''
      else if 0 < m then decimalNumeral s (nat m) \<and> hd s \<noteq> CHR ''0''
      else s \<noteq> [] \<and> hd s = CHR ''-'' \<and> decimalNumeral (tl s) (nat (- m)) \<and>
           hd (tl s) \<noteq> CHR ''0'')"

text \<open>
  The ASCII characters that a scan skips as spaces, the newline not among them; and a
  string at whose start no integer can be scanned: it is empty, or starts with a sign that
  no digit follows, or starts with an ASCII character that is neither such a space, a
  digit nor a sign.
\<close>

definition asciiSpace :: "char \<Rightarrow> bool" where
  "asciiSpace c \<longleftrightarrow> of_char c \<in> {9, 11, 12, 13, 32 :: nat}"

definition noIntegerAt :: "string \<Rightarrow> bool" where
  "noIntegerAt t \<longleftrightarrow>
     t = [] \<or>
     (hd t = CHR ''+'' \<or> hd t = CHR ''-'') \<and> (tl t = [] \<or> \<not> isDigit (hd (tl t))) \<or>
     of_char (hd t) < (128 :: nat) \<and> \<not> asciiSpace (hd t) \<and> \<not> isDigit (hd t) \<and>
       hd t \<noteq> CHR ''+'' \<and> hd t \<noteq> CHR ''-''"

text \<open>The ports of the replicas of the deployment that a call returned.\<close>

definition replicaPortsOf ::
  "(error + Deployment) \<times> Scheduler \<times> world \<Rightarrow> error + (string \<times> string) list option list" where
  "replicaPortsOf res = (case fst res of Inl err \<Rightarrow> Inl err | Inr d \<Rightarrow> Inr (map c_Ports (d_Replicas d)))"

text \<open>A Go map has one entry for each key.\<close>

definition portsWellFormed :: "ContainerSpec \<Rightarrow> bool" where
  "portsWellFormed spec \<longleftrightarrow>
     (case cs_Ports spec of None \<Rightarrow> True | Some ps \<Rightarrow> distinct (map fst ps))"

text \<open>What the loop of \<open>CreateDeployment\<close> establishes for the replica at index \<open>j\<close>.\<close>

definition replicaOk :: "DeploymentSpec \<Rightarrow> nat \<Rightarrow> Container \<Rightarrow> bool" where
  "replicaOk spec j c \<longleftrightarrow>
     c_Name c = cs_Name (replicaSpec spec j) \<and> c_Ports c = cs_Ports (replicaSpec spec j) \<and>
     c_Status c = ''running''"

text \<open>
  The fault of the port mapping at index \<open>j\<close>, if it has one: its port out of range, else
  its target port out of range, else its port equal to a port in \<open>U\<close> or to the port of an
  earlier mapping.
\<close>

definition portFault :: "int set \<Rightarrow> ServicePort list \<Rightarrow> nat \<Rightarrow> portError option" where
  "portFault U ports j =
     (let port = ports ! j
      in if sp_Port port < 1 \<or> 65535 < sp_Port port then Some (InvalidPortNumber (sp_Port port))
         else if sp_TargetPort port < 1 \<or> 65535 < sp_TargetPort port
              then Some (InvalidTargetPort (sp_TargetPort port))
         else if sp_Port port \<in> U \<union> sp_Port ` set (take j ports)
              then Some (PortInUseSameService (sp_Port port))
         else None)"

text \<open>A registered service of the given name has a mapping with port \<open>p\<close>.\<close>

definition serviceUsesPort :: "Scheduler \<Rightarrow> int \<Rightarrow> string \<Rightarrow> bool" where
  "serviceUsesPort s p name \<longleftrightarrow>
     (\<exists>(key, svc) \<in> set (services s).
        svc_Name svc = name \<and> p \<in> sp_Port ` set (ss_Ports (svc_Spec svc)))"

text \<open>
  A replica of a registered deployment of the given name binds container port \<open>cp\<close> to a
  host port string that \<open>Atoi\<close> reads as \<open>p\<close>.
\<close>

definition hostPortBound :: "(string \<times> string) list \<Rightarrow> int \<Rightarrow> string \<Rightarrow> bool" where
  "hostPortBound ps p cp \<longleftrightarrow> (\<exists>hp. (cp, hp) \<in> set ps \<and> Atoi hp = Some p)"

definition replicaBindsPort :: "Container \<Rightarrow> int \<Rightarrow> string \<Rightarrow> bool" where
  "replicaBindsPort r p cp \<longleftrightarrow> (\<exists>ps. c_Ports r = Some ps \<and> hostPortBound ps p cp)"

definition deploymentBindsPort :: "Scheduler \<Rightarrow> int \<Rightarrow> string \<Rightarrow> string \<Rightarrow> bool" where
  "deploymentBindsPort s p name cp \<longleftrightarrow>
     (\<exists>(key, d) \<in> set (deployments s).
        d_Name d = name \<and> (\<exists>r \<in> set (d_Replicas d). replicaBindsPort r p cp))"

text \<open>
  An invariant of the registry: the replicas of a deployment whose template declares no
  ports have no ports.
\<close>

definition registryPortsDeclared :: "Scheduler \<Rightarrow> bool" where
  "registryPortsDeclared s \<longleftrightarrow>
     (\<forall>(key, d) \<in> set (deployments s).
        cs_Ports (ds_Container (d_Spec d)) = None \<longrightarrow>
          (\<forall>r \<in> set (d_Replicas d). c_Ports r = None))"

abbreviation newPorts :: "ServiceSpec \<Rightarrow> int set" where
  "newPorts spec \<equiv> sp_Port ` set (ss_Ports spec)"

text \<open>
  A well-formed file of the directory: its name ends in \<open>.json\<close>, it can be read, and its
  content parses to the deployment \<open>d\<close>. A corrupt file: its name ends in \<open>.json\<close>, and
  it cannot be read or its content does not parse.
\<close>

definition wellFormedFile :: "'a codec \<Rightarrow> 'a fsys \<Rightarrow> string list \<Rightarrow> string \<Rightarrow> Deployment \<Rightarrow> bool" where
  "wellFormedFile C fs dir name d \<longleftrightarrow>
     Ext name = ''.json'' \<and>
     (\<exists>data. ReadFile fs dir name = Inr data \<and> unmarshal C data = Some d)"

definition corruptFile :: "'a codec \<Rightarrow> 'a fsys \<Rightarrow> string list \<Rightarrow> string \<Rightarrow> bool" where
  "corruptFile C fs dir name \<longleftrightarrow>
     Ext name = ''.json'' \<and>
     ((\<exists>err. ReadFile fs dir name = Inl err) \<or>
      (\<exists>data. ReadFile fs dir name = Inr data \<and> unmarshal C data = None))"

subsection \<open>Example inputs\<close>

definition dockerUp :: env where
  "dockerUp =
     \<lparr>newPortOk = (\<lambda>protocol portStr. True),
      containerCreate = (\<lambda>history spec. Some (''id-'' @ cs_Name spec)),
      containerStart = (\<lambda>history containerID. True),
      containerStop = (\<lambda>history containerID. True),
      containerRemove = (\<lambda>history containerID. True),
      clock = (\<lambda>n. 1000 + int n),
      allocLimit = 2 ^ 48\<rparr>"

definition world0 :: world where
  "world0 = \<lparr>calls = [], ticks = 0\<rparr>"

definition nginx :: ContainerSpec where
  "nginx =
     \<lparr>cs_Name = ''c'', cs_Image = ''nginx'', cs_Ports = Some [(''80/tcp'', ''9000'')],
      cs_Environment = [], cs_Labels = [], cs_Command = [], cs_Args = [],
      cs_WorkingDir = [], cs_Volumes = []\<rparr>"

definition web :: DeploymentSpec where
  "web = \<lparr>ds_Name = ''web'', ds_Replicas = 3, ds_Container = nginx, ds_Strategy = []\<rparr>"

definition web0 :: Container where
  "web0 =
     \<lparr>c_ID = ''id-web-0'', c_Name = ''web-0'', c_Image = ''nginx'', c_Status = ''running'',
      c_Ports = Some [(''80/tcp'', ''9000'')], c_Environment = [], c_Labels = [],
      c_Created = 1002, c_Started = None\<rparr>"

definition webDeployment :: Deployment where
  "webDeployment =
     \<lparr>d_ID = ''1000'', d_Name = ''web'', d_Spec = web\<lparr>ds_Replicas := 1\<rparr>,
      d_Status = ''running'', d_Replicas = [web0], d_Created = 1001\<rparr>"

definition front :: ServiceSpec where
  "front =
     \<lparr>ss_Name = ''front'', ss_Type = ''NodePort'', ss_Selector = [],
      ss_Ports = [\<lparr>sp_Port = 8080, sp_TargetPort = 80\<rparr>]\<rparr>"

definition frontService :: Service where
  "frontService =
     \<lparr>svc_ID = ''2000'', svc_Name = ''front'', svc_Spec = front, svc_Endpoints = [],
      svc_Status = ''active'', svc_Created = 2001\<rparr>"

definition registry1 :: Scheduler where
  "registry1 = \<lparr>deployments = [(''1000'', webDeployment)], services = [(''2000'', frontService)]\<rparr>"

definition dockerDown :: env where
  "dockerDown =
     \<lparr>newPortOk = (\<lambda>protocol portStr. True),
      containerCreate = (\<lambda>history spec. None),
      containerStart = (\<lambda>history containerID. False),
      containerStop = (\<lambda>history containerID. False),
      containerRemove = (\<lambda>history containerID. False),
      clock = (\<lambda>n. 1000 + int n),
      allocLimit = 2 ^ 48\<rparr>"

text \<open>A runtime that refuses to create the container named \<open>web-2\<close>.\<close>

definition dockerFlaky :: env where
  "dockerFlaky =
     dockerUp\<lparr>containerCreate :=
       (\<lambda>history spec. if cs_Name spec = ''web-2'' then None else Some (''id-'' @ cs_Name spec))\<rparr>"

text \<open>
  Two replicas on a base host port that is the largest \<open>int\<close>, and on one beyond it.
\<close>

definition webTop :: DeploymentSpec where
  "webTop =
     web\<lparr>ds_Replicas := 2,
         ds_Container := nginx\<lparr>cs_Ports := Some [(''80/tcp'', ''9223372036854775807'')]\<rparr>\<rparr>"

definition webBeyond :: DeploymentSpec where
  "webBeyond =
     web\<lparr>ds_Replicas := 2,
         ds_Container := nginx\<lparr>cs_Ports := Some [(''80/tcp'', ''9223372036854775808'')]\<rparr>\<rparr>"

definition webNamedPort :: DeploymentSpec where
  "webNamedPort = web\<lparr>ds_Container := nginx\<lparr>cs_Ports := Some [(''80/tcp'', ''http'')]\<rparr>\<rparr>"

definition api0 :: Container where
  "api0 =
     \<lparr>c_ID = ''id-api-0'', c_Name = ''api-0'', c_Image = ''nginx'', c_Status = ''running'',
      c_Ports = Some [(''80/tcp'', ''http'')], c_Environment = [], c_Labels = [],
      c_Created = 3002, c_Started = None\<rparr>"

definition apiDeployment :: Deployment where
  "apiDeployment =
     \<lparr>d_ID = ''3000'', d_Name = ''api'',
      d_Spec = webNamedPort\<lparr>ds_Name := ''api'', ds_Replicas := 1\<rparr>,
      d_Status = ''running'', d_Replicas = [api0], d_Created = 3001\<rparr>"

definition registry2 :: Scheduler where
  "registry2 =
     \<lparr>deployments = [(''3000'', apiDeployment), (''1000'', webDeployment)],
      services = [(''2000'', frontService)]\<rparr>"

definition mapping :: "int \<Rightarrow> int \<Rightarrow> ServicePort" where
  "mapping p t = \<lparr>sp_Port = p, sp_TargetPort = t\<rparr>"


definition edge :: ServiceSpec where
  "edge = front\<lparr>ss_Name := ''edge'', ss_Ports := [mapping 9000 80]\<rparr>"

definition side :: ServiceSpec where
  "side = front\<lparr>ss_Name := ''side'', ss_Ports := [mapping 8081 80]\<rparr>"




text \<open>A codec for the examples: the text of a deployment is its name.\<close>

definition nameCodec :: "string codec" where
  "nameCodec =
     \<lparr>marshal = (\<lambda>d. Some (d_Name d)),
      unmarshal = (\<lambda>data. if data = ''web'' then Some webDeployment
                           else if data = ''api'' then Some apiDeployment else None)\<rparr>"

definition store :: Storage where
  "store = \<lparr>dataDir = ''data''\<rparr>"


definition disk1 :: "string fsys" where
  "disk1 =
     (\<lambda>dir. if dir = [''data'', ''deployments'']
             then Some [(''1000.json'', File ''web''), (''2000.json'', File ''{''),
                        (''3000.json'', File ''api'')]
             else None)"

section \<open>Properties\<close>

subsection \<open>Duplicate names\<close>

lemma deploymentNameTaken_iff:
  "deploymentNameTaken ds name \<longleftrightarrow> (\<exists>(key, d) \<in> set ds. d_Name d = name)"
  by (auto simp: deploymentNameTaken_def list_ex_iff)

lemma serviceNameTaken_iff:
  "serviceNameTaken svcs name \<longleftrightarrow> (\<exists>(key, svc) \<in> set svcs. svc_Name svc = name)"
  by (auto simp: serviceNameTaken_def list_ex_iff)

text \<open>
  C4. A \<open>CreateDeployment\<close> whose name is the name of a registered deployment, and a
  \<open>CreateService\<close> whose name is the name of a registered service, fail with an error of
  kind \<open>AlreadyExists\<close>; the registry and the world are returned as they were, so no entry
  is added or changed and no call reaches the runtime.
\<close>

theorem duplicate_name_rejected:
  "((key, d) \<in> set (deployments s) \<and> d_Name d = ds_Name dspec \<longrightarrow>
      CreateDeployment E s w dspec = (Inl (DeploymentExists (ds_Name dspec)), s, w) \<and>
      kindOf (DeploymentExists (ds_Name dspec)) = AlreadyExists) \<and>
   ((key', svc) \<in> set (services s) \<and> svc_Name svc = ss_Name sspec \<longrightarrow>
      CreateService E s w sspec = (Inl (ServiceExists (ss_Name sspec)), s, w) \<and>
      kindOf (ServiceExists (ss_Name sspec)) = AlreadyExists)"
proof (intro conjI impI)
  assume "(key, d) \<in> set (deployments s) \<and> d_Name d = ds_Name dspec"
  then have "deploymentNameTaken (deployments s) (ds_Name dspec)"
    unfolding deploymentNameTaken_iff by blast
  then show "CreateDeployment E s w dspec = (Inl (DeploymentExists (ds_Name dspec)), s, w)"
    by (simp add: CreateDeployment_def)
next
  assume "(key', svc) \<in> set (services s) \<and> svc_Name svc = ss_Name sspec"
  then have "serviceNameTaken (services s) (ss_Name sspec)"
    unfolding serviceNameTaken_iff by blast
  then show "CreateService E s w sspec = (Inl (ServiceExists (ss_Name sspec)), s, w)"
    by (simp add: CreateService_def)
qed simp_all

theorem duplicate_name_rejected_witness:
  "CreateDeployment dockerUp registry1 world0 web =
     (Inl (DeploymentExists ''web''), registry1, world0) \<and>
   CreateService dockerUp registry1 world0 front =
     (Inl (ServiceExists ''front''), registry1, world0)"
  using duplicate_name_rejected [of "''1000''" webDeployment registry1 web dockerUp world0
      "''2000''" frontService front]
  by (simp add: registry1_def webDeployment_def web_def frontService_def front_def)

subsection \<open>Cleanup and deletion\<close>

lemma cleanupDeployment_result:
  "\<exists>w'. cleanupDeployment E cs w = (None, w') \<and> calls w' = calls w @ cleanupCalls cs \<and>
        ticks w' = ticks w"
proof (induction cs arbitrary: w)
  case Nil
  then show ?case by (simp add: cleanupCalls_def)
next
  case (Cons c cs)
  let ?w2 = "snd (Manager_Remove E (snd (Manager_Stop E w (c_ID c))) (c_ID c))"
  from Cons.IH [of ?w2] obtain w' where
    "cleanupDeployment E cs ?w2 = (None, w')" "calls w' = calls ?w2 @ cleanupCalls cs"
    "ticks w' = ticks ?w2"
    by blast
  then show ?case
    by (simp add: Manager_Stop_def Manager_Remove_def cleanupCalls_def)
qed

lemma find_by_name_Some:
  "find P xs = Some x \<Longrightarrow> x \<in> set xs \<and> P x"
  by (induction xs) (auto split: if_splits)

text \<open>
  C6. When a deployment of the given name is registered, \<open>DeleteDeployment\<close> calls \<open>Stop\<close>
  and then \<open>Remove\<close> for each of its replicas, in order, removes the entry from the
  registry and returns no error, whatever the runtime answers (the environment \<open>E\<close> is
  arbitrary). When no deployment has the name, it returns a \<open>NotFound\<close> error and the
  registry and the world are unchanged.
\<close>

theorem delete_deployment_best_effort:
  "((\<exists>(key, d) \<in> set (deployments s). d_Name d = name) \<longrightarrow>
      (\<exists>key d w'. (key, d) \<in> set (deployments s) \<and> d_Name d = name \<and>
         DeleteDeployment E s w name =
           (None, s\<lparr>deployments := AList.delete key (deployments s)\<rparr>, w') \<and>
         calls w' = calls w @ cleanupCalls (d_Replicas d) \<and>
         map_of (AList.delete key (deployments s)) key = None)) \<and>
   ((\<forall>(key, d) \<in> set (deployments s). d_Name d \<noteq> name) \<longrightarrow>
      DeleteDeployment E s w name = (Some (DeploymentNotFound name), s, w) \<and>
      kindOf (DeploymentNotFound name) = NotFound)"
proof (intro conjI impI)
  assume "\<exists>(key, d) \<in> set (deployments s). d_Name d = name"
  then have "find (\<lambda>(key, d). d_Name d = name) (deployments s) \<noteq> None"
    by (auto simp: find_None_iff)
  then obtain key d where f: "find (\<lambda>(key, d). d_Name d = name) (deployments s) = Some (key, d)"
    by (cases "find (\<lambda>(key, d). d_Name d = name) (deployments s)") auto
  from find_by_name_Some [OF f] have mem: "(key, d) \<in> set (deployments s)" "d_Name d = name"
    by auto
  obtain w' where c: "cleanupDeployment E (d_Replicas d) w = (None, w')"
    "calls w' = calls w @ cleanupCalls (d_Replicas d)"
    using cleanupDeployment_result by blast
  have "DeleteDeployment E s w name =
          (None, s\<lparr>deployments := AList.delete key (deployments s)\<rparr>, w')"
    by (simp add: DeleteDeployment_def f c)
  with mem c show "\<exists>key d w'. (key, d) \<in> set (deployments s) \<and> d_Name d = name \<and>
         DeleteDeployment E s w name =
           (None, s\<lparr>deployments := AList.delete key (deployments s)\<rparr>, w') \<and>
         calls w' = calls w @ cleanupCalls (d_Replicas d) \<and>
         map_of (AList.delete key (deployments s)) key = None"
    by (auto simp: AList.delete_conv')
next
  assume "\<forall>(key, d) \<in> set (deployments s). d_Name d \<noteq> name"
  then have "find (\<lambda>(key, d). d_Name d = name) (deployments s) = None"
    by (auto simp: find_None_iff)
  then show "DeleteDeployment E s w name = (Some (DeploymentNotFound name), s, w)"
    by (simp add: DeleteDeployment_def)
qed simp

theorem delete_deployment_best_effort_witness:
  "(\<exists>key d w'. (key, d) \<in> set (deployments registry1) \<and> d_Name d = ''web'' \<and>
      DeleteDeployment dockerDown registry1 world0 ''web'' =
        (None, registry1\<lparr>deployments := AList.delete key (deployments registry1)\<rparr>, w') \<and>
      calls w' = calls world0 @ cleanupCalls (d_Replicas d) \<and>
      map_of (AList.delete key (deployments registry1)) key = None) \<and>
   DeleteDeployment dockerDown registry1 world0 ''api'' =
     (Some (DeploymentNotFound ''api''), registry1, world0)"
proof -
  have 1: "\<exists>(key, d) \<in> set (deployments registry1). d_Name d = ''web''"
    by (simp add: registry1_def webDeployment_def)
  have 2: "\<forall>(key, d) \<in> set (deployments registry1). d_Name d \<noteq> ''api''"
    by (simp add: registry1_def webDeployment_def)
  from 1 2 show ?thesis
    using delete_deployment_best_effort [of registry1 "''web''" dockerDown world0]
      delete_deployment_best_effort [of registry1 "''api''" dockerDown world0]
    by blast
qed


subsection \<open>Decimal numerals\<close>

lemma isDigit_cases:
  "isDigit c \<Longrightarrow> spaceWidth (c # s) = 0 \<and> c \<noteq> CHR 0x0A \<and> c \<noteq> CHR ''+'' \<and> c \<noteq> CHR ''-'' \<and>
     0 \<le> digitVal c"
  by (auto simp: isDigit_def spaceWidth_def digitVal_def)

lemma SkipSpace_digit: "isDigit c \<Longrightarrow> SkipSpace (c # s) = Inr (c # s)"
  using isDigit_cases [of c s] by (simp add: SkipSpace.simps [of "c # s"])

lemma foldl_digits_nonneg:
  "list_all isDigit ds \<Longrightarrow> 0 \<le> acc \<Longrightarrow> 0 \<le> foldl (\<lambda>acc c. 10 * acc + digitVal c) acc ds"
proof (induction ds arbitrary: acc)
  case Nil
  then show ?case by simp
next
  case (Cons c ds)
  then have "0 \<le> 10 * acc + digitVal c"
    using isDigit_cases [of c "[]"] by simp
  with Cons show ?case by simp
qed

lemma decimalValue_nonneg: "list_all isDigit ds \<Longrightarrow> 0 \<le> decimalValue ds"
  by (simp add: decimalValue_def foldl_digits_nonneg)

lemma ParseInt_digits:
  assumes "list_all isDigit ds" "ds \<noteq> []" "decimalValue ds \<le> maxInt"
  shows "ParseInt ds = Some (decimalValue ds)"
proof -
  obtain c r where ds: "ds = c # r" using assms(2) by (cases ds) auto
  have "isDigit c" using assms(1) ds by simp
  then have "c \<noteq> CHR ''+''" "c \<noteq> CHR ''-''"
    using isDigit_cases [of c "[]"] by auto
  moreover have "minInt \<le> decimalValue ds"
    using decimalValue_nonneg [OF assms(1)] by (simp add: minInt_def)
  ultimately show ?thesis
    using assms by (simp add: ParseInt_def ds Let_def)
qed

lemma takeWhile_digits:
  "list_all isDigit ds \<Longrightarrow> rest = [] \<or> \<not> isDigit (hd rest) \<Longrightarrow>
     takeWhile isDigit (ds @ rest) = ds"
  by (cases rest) (auto simp: list_all_iff takeWhile_append2)

lemma Sscanf_d_digits:
  assumes "list_all isDigit ds" "ds \<noteq> []" "decimalValue ds \<le> maxInt"
    "rest = [] \<or> \<not> isDigit (hd rest)"
  shows "Sscanf_d (ds @ rest) = Inr (decimalValue ds)"
proof -
  obtain c r where ds: "ds = c # r" using assms(2) by (cases ds) auto
  have c: "isDigit c" using assms(1) ds by simp
  have sk: "SkipSpace (ds @ rest) = Inr (ds @ rest)"
    using SkipSpace_digit [OF c] by (simp add: ds)
  have sg: "hd (ds @ rest) \<noteq> CHR ''+''" "hd (ds @ rest) \<noteq> CHR ''-''"
    using isDigit_cases [OF c, of "[]"] by (simp_all add: ds)
  show ?thesis
    using assms(2) sg
    by (simp add: Sscanf_d_def sk Let_def takeWhile_digits [OF assms(1,4)]
          ParseInt_digits [OF assms(1-3)])
qed

lemma digit_char:
  "k < 10 \<Longrightarrow> isDigit (''0123456789'' ! k) \<and> digitVal (''0123456789'' ! k) = int k \<and>
     (0 < k \<longrightarrow> ''0123456789'' ! k \<noteq> CHR ''0'')"
proof -
  assume "k < 10"
  then have "k \<in> {0, 1, 2, 3, 4, 5, 6, 7, 8, 9}" by auto
  then show ?thesis
    by (auto simp: isDigit_def digitVal_def)
qed

lemma decimalValue_snoc: "decimalValue (xs @ [c]) = 10 * decimalValue xs + digitVal c"
  by (simp add: decimalValue_def)

lemma natDigits_numeral:
  "decimalNumeral (natDigits n) n \<and> (0 < n \<longrightarrow> hd (natDigits n) \<noteq> CHR ''0'')"
proof (induction n rule: natDigits.induct)
  case (1 n)
  show ?case
  proof (cases "n < 10")
    case True
    with digit_char [of n] show ?thesis
      by (simp add: natDigits.simps [of n] decimalNumeral_def decimalValue_def)
  next
    case False
    then have IH: "decimalNumeral (natDigits (n div 10)) (n div 10)"
      "hd (natDigits (n div 10)) \<noteq> CHR ''0''"
      using 1 by auto
    have m: "n mod 10 < 10" by simp
    have "10 * int (n div 10) + int (n mod 10) = int n"
      by (simp add: zdiv_int zmod_int)
    with IH digit_char [OF m] False show ?thesis
      by (simp add: natDigits.simps [of n] decimalNumeral_def decimalValue_snoc)
  qed
qed

lemma natDigits_0: "natDigits 0 = ''0''"
  by (simp add: natDigits.simps)

lemma renders_itoa: "renders (itoa m) m"
proof -
  consider "m = 0" | "0 < m" | "m < 0" by linarith
  then show ?thesis
  proof cases
    case 1
    then show ?thesis by (simp add: renders_def itoa_def natDigits_0)
  next
    case 2
    with natDigits_numeral [of "nat m"] show ?thesis
      by (simp add: renders_def itoa_def)
  next
    case 3
    with natDigits_numeral [of "nat (- m)"] show ?thesis
      by (simp add: renders_def itoa_def)
  qed
qed

lemma addInt_exact: "minInt \<le> a + b \<Longrightarrow> a + b \<le> maxInt \<Longrightarrow> addInt a b = a + b"
  by (simp add: addInt_def minInt_def maxInt_def)

lemma addInt_wrap:
  assumes "maxInt < a + b" "a + b \<le> maxInt + 2 ^ 64"
  shows "addInt a b = a + b - 2 ^ 64"
proof -
  have "(a + b + 2 ^ 63) mod 2 ^ 64 = (a + b + 2 ^ 63 - 2 ^ 64) mod (2 ^ 64 :: int)"
    by (simp only: minus_mod_self2)
  also have "\<dots> = a + b + 2 ^ 63 - 2 ^ 64"
    using assms by (intro mod_pos_pos_trivial) (simp_all add: maxInt_def)
  finally show ?thesis by (simp add: addInt_def)
qed

lemma mustParseInt_numeral:
  "decimalNumeral b n \<Longrightarrow> int n \<le> maxInt \<Longrightarrow> mustParseInt b = int n"
  using Sscanf_d_digits [of b "[]"] by (simp add: decimalNumeral_def mustParseInt_def)

lemma parse_examples:
  "mustParseInt ''9000'' = 9000"
  "mustParseInt ''9223372036854775807'' = 9223372036854775807"
  "mustParseInt ''9223372036854775808'' = 0"
  by (simp_all add: mustParseInt_def Sscanf_d_def SkipSpace.simps spaceWidth_def ParseInt_def
        isDigit_def decimalValue_def digitVal_def minInt_def maxInt_def)

lemma mustParseInt_http: "mustParseInt ''http'' = 0"
  by (simp add: mustParseInt_def Sscanf_d_def SkipSpace.simps spaceWidth_def isDigit_def)

lemma newline_code: "of_char c = (10 :: nat) \<longleftrightarrow> c = CHR 0x0A"
proof
  assume "of_char c = (10 :: nat)"
  then have "of_char c = (of_char (CHR 0x0A) :: nat)" by simp
  then show "c = CHR 0x0A" by (simp only: of_char_eq_iff)
qed simp

lemma SkipSpace_ascii: "list_all asciiSpace ws \<Longrightarrow> SkipSpace (ws @ t) = SkipSpace t"
proof (induction ws)
  case Nil
  then show ?case by simp
next
  case (Cons c ws)
  then have c: "of_char c \<in> {9, 11, 12, 13, 32 :: nat}" by (simp add: asciiSpace_def)
  then have "c \<noteq> CHR 0x0A" by auto
  moreover have "spaceWidth (c # ws @ t) = 1"
    using c by (auto simp: spaceWidth_def)
  ultimately show ?case
    using Cons by (simp add: SkipSpace.simps [of "c # ws @ t"])
qed

lemma Sscanf_d_ascii: "list_all asciiSpace ws \<Longrightarrow> Sscanf_d (ws @ t) = Sscanf_d t"
  by (simp add: Sscanf_d_def SkipSpace_ascii)

lemma SkipSpace_sign: "c = CHR ''+'' \<or> c = CHR ''-'' \<Longrightarrow> SkipSpace (c # t) = Inr (c # t)"
  by (auto simp: SkipSpace.simps [of "c # t"] spaceWidth_def)

lemma SkipSpace_other:
  "of_char c < (128 :: nat) \<Longrightarrow> \<not> asciiSpace c \<Longrightarrow>
     SkipSpace (c # t) = (if c = CHR 0x0A then Inl UnexpectedNewline else Inr (c # t))"
  using newline_code [of c]
  by (auto simp: SkipSpace.simps [of "c # t"] spaceWidth_def asciiSpace_def)

lemma ParseInt_range: "ParseInt s = Some v \<Longrightarrow> minInt \<le> v \<and> v \<le> maxInt"
  by (auto simp: ParseInt_def Let_def split: list.splits if_splits)

lemma mustParseInt_range: "minInt \<le> mustParseInt s \<and> mustParseInt s \<le> maxInt"
proof (cases "Sscanf_d s")
  case (Inl e)
  then show ?thesis by (simp add: mustParseInt_def minInt_def maxInt_def)
next
  case (Inr v)
  then obtain tok where "ParseInt tok = Some v"
    by (auto simp: Sscanf_d_def Let_def split: sum.splits if_splits option.splits)
  with Inr ParseInt_range show ?thesis by (simp add: mustParseInt_def)
qed

lemma ParseInt_unsigned:
  assumes "list_all isDigit ds" "ds \<noteq> []"
  shows "ParseInt ds = (if decimalValue ds \<le> maxInt then Some (decimalValue ds) else None)"
proof -
  obtain c r where ds: "ds = c # r" using assms(2) by (cases ds) auto
  have "isDigit c" using assms(1) ds by simp
  then have "c \<noteq> CHR ''+''" "c \<noteq> CHR ''-''"
    using isDigit_cases [of c "[]"] by auto
  moreover have "minInt \<le> decimalValue ds"
    using decimalValue_nonneg [OF assms(1)] by (simp add: minInt_def)
  ultimately show ?thesis
    using assms by (simp add: ParseInt_def ds Let_def)
qed

lemma ParseInt_signed:
  assumes "list_all isDigit ds" "ds \<noteq> []"
  shows "ParseInt (CHR ''+'' # ds) =
           (if decimalValue ds \<le> maxInt then Some (decimalValue ds) else None)"
    "ParseInt (CHR ''-'' # ds) =
           (if decimalValue ds \<le> maxInt + 1 then Some (- decimalValue ds) else None)"
  using assms decimalValue_nonneg [OF assms(1)]
  by (auto simp: ParseInt_def Let_def minInt_def maxInt_def)

lemma Sscanf_d_integer:
  assumes "list_all isDigit ds" "ds \<noteq> []" "rest = [] \<or> \<not> isDigit (hd rest)"
  shows "Sscanf_d (ds @ rest) =
           (if decimalValue ds \<le> maxInt then Inr (decimalValue ds) else Inl OutOfRange)"
    "Sscanf_d (CHR ''+'' # ds @ rest) =
           (if decimalValue ds \<le> maxInt then Inr (decimalValue ds) else Inl OutOfRange)"
    "Sscanf_d (CHR ''-'' # ds @ rest) =
           (if decimalValue ds \<le> maxInt + 1 then Inr (- decimalValue ds) else Inl OutOfRange)"
proof -
  obtain c r where ds: "ds = c # r" using assms(2) by (cases ds) auto
  have c: "isDigit c" using assms(1) ds by simp
  have sk: "SkipSpace (ds @ rest) = Inr (ds @ rest)"
    using SkipSpace_digit [OF c] by (simp add: ds)
  have sg: "hd (ds @ rest) \<noteq> CHR ''+''" "hd (ds @ rest) \<noteq> CHR ''-''"
    using isDigit_cases [OF c, of "[]"] by (simp_all add: ds)
  show "Sscanf_d (ds @ rest) =
           (if decimalValue ds \<le> maxInt then Inr (decimalValue ds) else Inl OutOfRange)"
    using assms(2) sg
    by (simp add: Sscanf_d_def sk Let_def takeWhile_digits [OF assms(1,3)]
          ParseInt_unsigned [OF assms(1,2)])
  show "Sscanf_d (CHR ''+'' # ds @ rest) =
           (if decimalValue ds \<le> maxInt then Inr (decimalValue ds) else Inl OutOfRange)"
    using assms(2)
    by (simp add: Sscanf_d_def SkipSpace_sign Let_def takeWhile_digits [OF assms(1,3)]
          ParseInt_signed [OF assms(1,2)])
  show "Sscanf_d (CHR ''-'' # ds @ rest) =
           (if decimalValue ds \<le> maxInt + 1 then Inr (- decimalValue ds) else Inl OutOfRange)"
    using assms(2)
    by (simp add: Sscanf_d_def SkipSpace_sign Let_def takeWhile_digits [OF assms(1,3)]
          ParseInt_signed [OF assms(1,2)])
qed

lemma Sscanf_d_no_integer: "noIntegerAt t \<Longrightarrow> \<exists>e. Sscanf_d t = Inl e"
proof (cases t)
  case Nil
  then show ?thesis by (simp add: Sscanf_d_def SkipSpace.simps [of "[]"])
next
  case (Cons c u)
  assume n: "noIntegerAt t"
  show ?thesis
  proof (cases "c = CHR ''+'' \<or> c = CHR ''-''")
    case True
    with n Cons have u: "u = [] \<or> \<not> isDigit (hd u)"
      by (auto simp: noIntegerAt_def)
    then have "takeWhile isDigit u = []" by (cases u) auto
    with True show ?thesis
      by (auto simp: Cons Sscanf_d_def SkipSpace_sign Let_def)
  next
    case False
    with n Cons have c: "of_char c < (128 :: nat)" "\<not> asciiSpace c" "\<not> isDigit c"
      by (auto simp: noIntegerAt_def)
    with False show ?thesis
      by (simp add: Cons Sscanf_d_def SkipSpace_other Let_def)
  qed
qed

lemma mustParseInt_no_integer:
  "list_all asciiSpace ws \<Longrightarrow> noIntegerAt t \<Longrightarrow> mustParseInt (ws @ t) = 0"
  using Sscanf_d_no_integer [of t] by (auto simp: mustParseInt_def Sscanf_d_ascii)

subsection \<open>Creating a deployment\<close>

lemma Manager_Create_Inr:
  "Manager_Create E w sp = (Inr c, w1) \<Longrightarrow>
     c_Name c = cs_Name sp \<and> c_Ports c = cs_Ports sp \<and> calls w1 = calls w @ [Create sp]"
  by (auto simp: Manager_Create_def Let_def timeNow_def split: option.splits)

lemma createReplicas_Inr:
  "createReplicas E spec i d w = (Inr d', w') \<Longrightarrow> length (d_Replicas d) = i \<Longrightarrow>
   (\<forall>j < i. replicaOk spec j (d_Replicas d ! j)) \<Longrightarrow>
     length (d_Replicas d') = max i (nat (ds_Replicas spec)) \<and>
     (\<forall>j < length (d_Replicas d'). replicaOk spec j (d_Replicas d' ! j)) \<and>
     d' = d\<lparr>d_Replicas := d_Replicas d'\<rparr>"
proof (induction E spec i d w rule: createReplicas.induct)
  case (1 E spec i deployment w)
  show ?case
  proof (cases "int i < ds_Replicas spec")
    case False
    then have "nat (ds_Replicas spec) \<le> i" by linarith
    with False "1.prems" show ?thesis
      by (auto simp: createReplicas.simps [of E spec i] max_def)
  next
    case True
    from "1.prems"(1) True obtain c w1 w2 where
      mc: "Manager_Create E w (replicaSpec spec i) = (Inr c, w1)" and
      ms: "Manager_Start E w1 (c_ID c) = (None, w2)" and
      rec: "createReplicas E spec (Suc i)
              (deployment\<lparr>d_Replicas := d_Replicas deployment @ [c\<lparr>c_Status := ''running''\<rparr>]\<rparr>) w2
            = (Inr d', w')"
      by (auto simp: createReplicas.simps [of E spec i] split: prod.splits sum.splits option.splits)
    let ?d1 = "deployment\<lparr>d_Replicas := d_Replicas deployment @ [c\<lparr>c_Status := ''running''\<rparr>]\<rparr>"
    have len: "length (d_Replicas ?d1) = Suc i"
      using "1.prems"(2) by simp
    have ok: "\<forall>j < Suc i. replicaOk spec j (d_Replicas ?d1 ! j)"
      using "1.prems"(2,3) Manager_Create_Inr [OF mc]
      by (auto simp: nth_append less_Suc_eq replicaOk_def)
    from "1.IH" [OF True mc [symmetric] refl ms [symmetric] refl rec len ok]
    show ?thesis using True by (auto simp: max_def)
  qed
qed

lemma portBindings_ok:
  "\<forall>protocol portStr. newPortOk E protocol portStr \<Longrightarrow> portBindings E ps = None"
  by (induction ps) (auto simp: Let_def)

lemma map_of_fold_update:
  "map_of (fold (\<lambda>(k, v) m. AList.update k (f v) m) ps acc) x =
     (case map_of (rev ps) x of Some v \<Rightarrow> Some (f v) | None \<Rightarrow> map_of acc x)"
proof (induction ps arbitrary: acc)
  case Nil
  then show ?case by simp
next
  case (Cons a ps)
  obtain k v where a: "a = (k, v)" by (cases a)
  show ?case
    by (simp add: a Cons.IH AList.update_conv' map_add_def split: option.splits)
qed

lemma map_of_replicaPorts:
  assumes "distinct (map fst ps)" "(p, b) \<in> set ps"
  shows "map_of (replicaPorts ps i) p = Some (itoa (addInt (mustParseInt b) (int i)))"
proof -
  have "map_of (rev ps) p = Some b"
    using assms by (intro map_of_is_SomeI) (auto simp: rev_map [symmetric])
  then show ?thesis
    by (simp add: replicaPorts_def map_of_fold_update)
qed

lemma allSucceed_append:
  "allSucceed E h (xs @ ys) = (allSucceed E h xs \<and> allSucceed E (h @ xs) ys)"
  by (induction xs arbitrary: h) auto

lemma allSucceed_always: "runtimeAlwaysSucceeds E \<Longrightarrow> allSucceed E h cs"
  by (induction cs arbitrary: h)
     (auto simp: callSucceeds_def runtimeAlwaysSucceeds_def portBindings_ok split: call.splits)

lemma Manager_Create_calls:
  "Manager_Create E w sp = (x, w1) \<Longrightarrow>
     calls w1 = calls w @ [Create sp] \<and> (callSucceeds E (calls w) (Create sp) \<longrightarrow> (\<exists>c. x = Inr c))"
  by (auto simp: Manager_Create_def Let_def timeNow_def callSucceeds_def split: option.splits)

lemma Manager_Start_calls:
  "Manager_Start E w cid = (x, w1) \<Longrightarrow>
     calls w1 = calls w @ [Start cid] \<and> (callSucceeds E (calls w) (Start cid) \<longrightarrow> x = None)"
  by (auto simp: Manager_Start_def callSucceeds_def)

lemma createReplicas_run:
  "createReplicas E spec i d w = (r, w') \<Longrightarrow>
     \<exists>ext. calls w' = calls w @ ext \<and> (allSucceed E (calls w) ext \<longrightarrow> (\<exists>d'. r = Inr d'))"
proof (induction E spec i d w rule: createReplicas.induct)
  case (1 E spec i deployment w)
  show ?case
  proof (cases "int i < ds_Replicas spec")
    case False
    with "1.prems" show ?thesis
      by (auto simp: createReplicas.simps [of E spec i])
  next
    case True
    obtain x w1 where mc: "Manager_Create E w (replicaSpec spec i) = (x, w1)"
      by (cases "Manager_Create E w (replicaSpec spec i)")
    note c1 = Manager_Create_calls [OF mc]
    show ?thesis
    proof (cases x)
      case (Inl err)
      obtain wc where wc: "cleanupDeployment E (d_Replicas deployment) w1 = (None, wc)"
        "calls wc = calls w1 @ cleanupCalls (d_Replicas deployment)"
        using cleanupDeployment_result by blast
      from "1.prems" True mc Inl wc have "w' = wc"
        by (simp add: createReplicas.simps [of E spec i])
      with wc c1 Inl show ?thesis by auto
    next
      case (Inr c)
      obtain y w2 where ms: "Manager_Start E w1 (c_ID c) = (y, w2)"
        by (cases "Manager_Start E w1 (c_ID c)")
      note c2 = Manager_Start_calls [OF ms]
      show ?thesis
      proof (cases y)
        case (Some err)
        obtain wc where wc: "cleanupDeployment E (d_Replicas deployment) w2 = (None, wc)"
          "calls wc = calls w2 @ cleanupCalls (d_Replicas deployment)"
          using cleanupDeployment_result by blast
        from "1.prems" True mc Inr ms Some wc have "w' = wc"
          by (simp add: createReplicas.simps [of E spec i])
        with wc c1 c2 Some show ?thesis by auto
      next
        case None
        let ?d1 = "deployment\<lparr>d_Replicas := d_Replicas deployment @ [c\<lparr>c_Status := ''running''\<rparr>]\<rparr>"
        from "1.prems" True mc Inr ms None
        have rec: "createReplicas E spec (Suc i) ?d1 w2 = (r, w')"
          by (simp add: createReplicas.simps [of E spec i])
        from "1.IH" [OF True mc [unfolded Inr, symmetric] refl ms [unfolded None, symmetric] refl rec]
        obtain ext where ext: "calls w' = calls w2 @ ext"
          "allSucceed E (calls w2) ext \<longrightarrow> (\<exists>d'. r = Inr d')"
          by blast
        have "calls w' = calls w @ (Create (replicaSpec spec i) # Start (c_ID c) # ext)"
          using ext(1) c1 c2 by simp
        moreover have "allSucceed E (calls w) (Create (replicaSpec spec i) # Start (c_ID c) # ext)
                 \<longrightarrow> (\<exists>d'. r = Inr d')"
          using ext(2) c1 c2 by simp
        ultimately show ?thesis by blast
      qed
    qed
  qed
qed

lemma newDeployment_Inr:
  "0 \<le> ds_Replicas spec \<Longrightarrow> 8 * ds_Replicas spec < 2 ^ 64 \<Longrightarrow>
   8 * ds_Replicas spec \<le> int (allocLimit E) \<Longrightarrow>
     \<exists>d w1. newDeployment E w spec = (Inr d, w1) \<and> d_Replicas d = [] \<and>
            d_Name d = ds_Name spec \<and> calls w1 = calls w"
  by (auto simp: newDeployment_def generateID_def timeNow_def Let_def)

lemma fresh_not_taken:
  "(\<forall>(key, d) \<in> set ds. d_Name d \<noteq> name) \<Longrightarrow> \<not> deploymentNameTaken ds name"
  by (auto simp: deploymentNameTaken_iff)

lemma CreateDeployment_run:
  assumes fresh: "\<forall>(key, d) \<in> set (deployments s). d_Name d \<noteq> ds_Name spec"
    and count: "0 \<le> ds_Replicas spec" "8 * ds_Replicas spec < 2 ^ 64"
      "8 * ds_Replicas spec \<le> int (allocLimit E)"
    and run: "CreateDeployment E s w spec = (r, s', w')"
    and ok: "runSucceeds E w w'"
  shows "\<exists>d. r = Inr d \<and> s' = s\<lparr>deployments := AList.update (d_ID d) d (deployments s)\<rparr> \<and>
         d_Name d = ds_Name spec \<and> d_Status d = ''running'' \<and>
         length (d_Replicas d) = nat (ds_Replicas spec) \<and>
         (\<forall>j < length (d_Replicas d). replicaOk spec j (d_Replicas d ! j))"
proof -
  obtain d0 w1 where nd: "newDeployment E w spec = (Inr d0, w1)" "d_Replicas d0 = []"
      "d_Name d0 = ds_Name spec" "calls w1 = calls w"
    using newDeployment_Inr [OF count] by blast
  obtain r1 w2 where cr: "createReplicas E spec 0 d0 w1 = (r1, w2)"
    by (cases "createReplicas E spec 0 d0 w1")
  from createReplicas_run [OF cr] obtain ext where
    ext: "calls w2 = calls w1 @ ext" "allSucceed E (calls w1) ext \<longrightarrow> (\<exists>d'. r1 = Inr d')"
    by blast
  have w2: "w' = w2"
    using run fresh_not_taken [OF fresh]
    by (auto simp: CreateDeployment_def nd cr Let_def split: sum.splits)
  have "allSucceed E (calls w1) ext"
    using ok by (simp add: runSucceeds_def w2 ext(1) nd(4))
  with ext(2) obtain d1 where d1: "r1 = Inr d1" by blast
  from createReplicas_Inr [OF cr [unfolded d1]] nd(2)
  have inv: "length (d_Replicas d1) = nat (ds_Replicas spec)"
    "\<forall>j < length (d_Replicas d1). replicaOk spec j (d_Replicas d1 ! j)"
    "d1 = d0\<lparr>d_Replicas := d_Replicas d1\<rparr>"
    by auto
  have nm: "d_Name d1 = ds_Name spec"
    using inv(3) nd(3) by (metis Deployment.select_convs(2) Deployment.surjective Deployment.update_convs(5))
  let ?d = "d1\<lparr>d_Status := ''running''\<rparr>"
  have "CreateDeployment E s w spec =
          (Inr ?d, s\<lparr>deployments := AList.update (d_ID ?d) ?d (deployments s)\<rparr>, w2)"
    using fresh_not_taken [OF fresh] by (simp add: CreateDeployment_def nd cr d1 Let_def)
  with run inv nm show ?thesis by auto
qed

lemma runSucceeds_always: "runtimeAlwaysSucceeds E \<Longrightarrow> runSucceeds E w w'"
  by (simp add: runSucceeds_def allSucceed_always)

lemma dockerUp_always: "runtimeAlwaysSucceeds dockerUp"
  by (simp add: runtimeAlwaysSucceeds_def dockerUp_def)

lemma dockerUp_ports:
  assumes "0 \<le> ds_Replicas spec" "ds_Replicas spec \<le> 100"
  shows "replicaPortsOf (CreateDeployment dockerUp NewScheduler world0 spec) =
           Inr (map (\<lambda>i. cs_Ports (replicaSpec spec i)) [0 ..< nat (ds_Replicas spec)])"
proof -
  obtain r s' w' where run: "CreateDeployment dockerUp NewScheduler world0 spec = (r, s', w')"
    by (cases "CreateDeployment dockerUp NewScheduler world0 spec")
  have fresh: "\<forall>(key, d) \<in> set (deployments NewScheduler). d_Name d \<noteq> ds_Name spec"
    by (simp add: NewScheduler_def)
  have count: "8 * ds_Replicas spec < 2 ^ 64" "8 * ds_Replicas spec \<le> int (allocLimit dockerUp)"
    using assms by (simp_all add: dockerUp_def)
  from CreateDeployment_run [OF fresh assms(1) count run runSucceeds_always [OF dockerUp_always]]
  obtain d where d: "r = Inr d" "length (d_Replicas d) = nat (ds_Replicas spec)"
    "\<forall>j < length (d_Replicas d). replicaOk spec j (d_Replicas d ! j)"
    by blast
  have "map c_Ports (d_Replicas d) =
          map (\<lambda>i. cs_Ports (replicaSpec spec i)) [0 ..< nat (ds_Replicas spec)]"
    using d(2,3) by (intro nth_equalityI) (auto simp: replicaOk_def)
  then show ?thesis
    by (simp add: replicaPortsOf_def run d(1))
qed

lemma upt_2_3: "[0 ..< 2] = [0, Suc 0]" "[0 ..< 3] = [0, Suc 0, 2]"
  by (simp_all add: upt_rec numeral_2_eq_2 numeral_3_eq_3)

text \<open>
  C1, as the code has it. For a deployment spec with a fresh name and \<open>Replicas = R\<close>, where
  \<open>0 \<le> R\<close> and a slice of \<open>R\<close> pointers can be allocated, when every \<open>Create\<close> and \<open>Start\<close>
  call that the run makes succeeds, \<open>CreateDeployment\<close> returns a deployment with exactly
  \<open>R\<close> replicas. Replica \<open>i\<close> is named \<open>name-i\<close>, with \<open>i\<close> in decimal. For every declared
  entry \<open>p \<mapsto> b\<close> of the template's ports whose base \<open>b\<close> is a decimal numeral within the
  range of \<open>int\<close>, the host port of replica \<open>i\<close> for \<open>p\<close> is the decimal rendering of \<open>b + i\<close>,
  the sum of Go's 64-bit \<open>int\<close>: \<open>b + i\<close> itself when that is at most the largest \<open>int\<close>,
  and \<open>b + i - 2 ^ 64\<close> otherwise.
\<close>

theorem create_deployment_replicas:
  assumes fresh: "\<forall>(key, d) \<in> set (deployments s). d_Name d \<noteq> ds_Name spec"
    and count: "0 \<le> ds_Replicas spec" "8 * ds_Replicas spec < 2 ^ 64"
      "8 * ds_Replicas spec \<le> int (allocLimit E)"
    and run: "CreateDeployment E s w spec = (r, s', w')"
    and ok: "runSucceeds E w w'"
    and ports: "portsWellFormed (ds_Container spec)"
  shows "\<exists>d. r = Inr d \<and> int (length (d_Replicas d)) = ds_Replicas spec \<and>
           (\<forall>i < length (d_Replicas d).
              (\<exists>t. c_Name (d_Replicas d ! i) = ds_Name spec @ ''-'' @ t \<and> renders t (int i)) \<and>
              (\<forall>ps p b n. cs_Ports (ds_Container spec) = Some ps \<and> (p, b) \<in> set ps \<and>
                          decimalNumeral b n \<and> int n \<le> maxInt \<longrightarrow>
                 (\<exists>rp h. c_Ports (d_Replicas d ! i) = Some rp \<and> map_of rp p = Some h \<and>
                    renders h (if int n + int i \<le> maxInt then int n + int i
                               else int n + int i - 2 ^ 64))))"
proof -
  from CreateDeployment_run [OF fresh count run ok] obtain d where
    res: "r = Inr d" and
    len: "length (d_Replicas d) = nat (ds_Replicas spec)" and
    rok: "\<forall>j < length (d_Replicas d). replicaOk spec j (d_Replicas d ! j)"
    by blast
  have "\<exists>t. c_Name (d_Replicas d ! i) = ds_Name spec @ ''-'' @ t \<and> renders t (int i)"
    if "i < length (d_Replicas d)" for i
    using rok that renders_itoa [of "int i"] by (auto simp: replicaOk_def replicaSpec_def)
  moreover have "\<exists>rp h. c_Ports (d_Replicas d ! i) = Some rp \<and> map_of rp p = Some h \<and>
                    renders h (if int n + int i \<le> maxInt then int n + int i
                               else int n + int i - 2 ^ 64)"
    if i: "i < length (d_Replicas d)" and ps: "cs_Ports (ds_Container spec) = Some ps"
      and mem: "(p, b) \<in> set ps" and b: "decimalNumeral b n" and n: "int n \<le> maxInt"
    for i ps p b n
  proof -
    have "distinct (map fst ps)"
      using ports ps by (simp add: portsWellFormed_def)
    then have m: "map_of (replicaPorts ps i) p = Some (itoa (addInt (mustParseInt b) (int i)))"
      using mem by (rule map_of_replicaPorts)
    have c: "c_Ports (d_Replicas d ! i) = Some (replicaPorts ps i)"
      using rok i ps by (simp add: replicaOk_def replicaSpec_def)
    have "8 * int i < 2 ^ 64"
      using i len count by linarith
    then have "addInt (int n) (int i) =
        (if int n + int i \<le> maxInt then int n + int i else int n + int i - 2 ^ 64)"
      using n addInt_exact [of "int n" "int i"] addInt_wrap [of "int n" "int i"]
      by (simp add: minInt_def maxInt_def)
    then show ?thesis
      using m c renders_itoa [of "addInt (int n) (int i)"] mustParseInt_numeral [OF b n] by simp
  qed
  moreover have "int (length (d_Replicas d)) = ds_Replicas spec"
    using len count by simp
  ultimately show ?thesis using res by blast
qed

theorem create_deployment_replicas_witness:
  "replicaPortsOf (CreateDeployment dockerUp NewScheduler world0 web) =
     Inr [Some [(''80/tcp'', ''9000'')], Some [(''80/tcp'', ''9001'')],
          Some [(''80/tcp'', ''9002'')]] \<and>
   (\<exists>d. fst (CreateDeployment dockerUp NewScheduler world0 web) = Inr d \<and>
      int (length (d_Replicas d)) = 3 \<and>
      (\<forall>i < length (d_Replicas d).
         (\<exists>t. c_Name (d_Replicas d ! i) = ''web-'' @ t \<and> renders t (int i)) \<and>
         (\<exists>rp h. c_Ports (d_Replicas d ! i) = Some rp \<and> map_of rp ''80/tcp'' = Some h \<and>
                 renders h (9000 + int i))))"
proof -
  obtain r s' w' where run: "CreateDeployment dockerUp NewScheduler world0 web = (r, s', w')"
    by (cases "CreateDeployment dockerUp NewScheduler world0 web")
  have 1: "\<forall>(key, d) \<in> set (deployments NewScheduler). d_Name d \<noteq> ds_Name web"
    by (simp add: NewScheduler_def)
  have 2: "0 \<le> ds_Replicas web" "8 * ds_Replicas web < 2 ^ 64"
    "8 * ds_Replicas web \<le> int (allocLimit dockerUp)"
    by (simp_all add: web_def dockerUp_def)
  have 3: "runSucceeds dockerUp world0 w'"
    by (rule runSucceeds_always [OF dockerUp_always])
  have 4: "portsWellFormed (ds_Container web)"
    by (simp add: portsWellFormed_def web_def nginx_def)
  have 5: "cs_Ports (ds_Container web) = Some [(''80/tcp'', ''9000'')]"
    "decimalNumeral ''9000'' 9000" "int 9000 \<le> maxInt"
    by (simp_all add: web_def nginx_def decimalNumeral_def isDigit_def decimalValue_def
          digitVal_def maxInt_def)
  from create_deployment_replicas [OF 1 2 run 3 4] obtain d where
    d: "r = Inr d" "int (length (d_Replicas d)) = ds_Replicas web"
       "\<forall>i < length (d_Replicas d).
          (\<exists>t. c_Name (d_Replicas d ! i) = ds_Name web @ ''-'' @ t \<and> renders t (int i)) \<and>
          (\<forall>ps p b n. cs_Ports (ds_Container web) = Some ps \<and> (p, b) \<in> set ps \<and>
                      decimalNumeral b n \<and> int n \<le> maxInt \<longrightarrow>
             (\<exists>rp h. c_Ports (d_Replicas d ! i) = Some rp \<and> map_of rp p = Some h \<and>
                renders h (if int n + int i \<le> maxInt then int n + int i
                           else int n + int i - 2 ^ 64)))"
    by blast
  have len: "length (d_Replicas d) = 3"
    using d(2) by (simp add: web_def)
  have "(\<exists>t. c_Name (d_Replicas d ! i) = ''web-'' @ t \<and> renders t (int i)) \<and>
        (\<exists>rp h. c_Ports (d_Replicas d ! i) = Some rp \<and> map_of rp ''80/tcp'' = Some h \<and>
                renders h (9000 + int i))"
    if i: "i < length (d_Replicas d)" for i
  proof -
    have "int 9000 + int i \<le> maxInt"
      using i len by (simp add: maxInt_def)
    moreover have "(''80/tcp'', ''9000'') \<in> set [(''80/tcp'', ''9000'')]" by simp
    ultimately show ?thesis
      using d(3) i 5 by (fastforce simp: web_def)
  qed
  moreover have "replicaPortsOf (CreateDeployment dockerUp NewScheduler world0 web) =
     Inr [Some [(''80/tcp'', ''9000'')], Some [(''80/tcp'', ''9001'')],
          Some [(''80/tcp'', ''9002'')]]"
    using dockerUp_ports [of web]
    by (simp add: web_def nginx_def upt_2_3 replicaSpec_def replicaPorts_def parse_examples
          addInt_def itoa_def natDigits.simps)
  ultimately show ?thesis
    using d(1) len run by auto
qed

text \<open>
  Where the sentence of C1 fails without these conditions. With \<open>Replicas = 2 ^ 62\<close> and a
  fresh name the call panics in \<open>make\<close> before any call of the runtime, so no call of the
  run has failed and yet no deployment is returned. With the base host port
  \<open>9223372036854775807\<close>, the largest \<open>int\<close>, replica 1 is bound to
  \<open>-9223372036854775808\<close>. With the base \<open>9223372036854775808\<close>, which no \<open>int\<close> holds,
  the scan fails and the replicas are bound to \<open>0\<close> and \<open>1\<close>.
\<close>

theorem create_deployment_replicas_out_of_range:
  "CreateDeployment dockerUp NewScheduler world0 (web\<lparr>ds_Replicas := 2 ^ 62\<rparr>) =
     (Inl (Panic ''makeslice: cap out of range''), NewScheduler, world0\<lparr>ticks := 1\<rparr>) \<and>
   runSucceeds dockerUp world0 (world0\<lparr>ticks := 1\<rparr>) \<and>
   replicaPortsOf (CreateDeployment dockerUp NewScheduler world0 webTop) =
     Inr [Some [(''80/tcp'', ''9223372036854775807'')],
          Some [(''80/tcp'', ''-9223372036854775808'')]] \<and>
   replicaPortsOf (CreateDeployment dockerUp NewScheduler world0 webBeyond) =
     Inr [Some [(''80/tcp'', ''0'')], Some [(''80/tcp'', ''1'')]]"
proof (intro conjI)
  show "CreateDeployment dockerUp NewScheduler world0 (web\<lparr>ds_Replicas := 2 ^ 62\<rparr>) =
     (Inl (Panic ''makeslice: cap out of range''), NewScheduler, world0\<lparr>ticks := 1\<rparr>)"
    by (simp add: CreateDeployment_def deploymentNameTaken_def NewScheduler_def newDeployment_def
          generateID_def timeNow_def Let_def web_def world0_def dockerUp_def)
  show "runSucceeds dockerUp world0 (world0\<lparr>ticks := 1\<rparr>)"
    by (simp add: runSucceeds_def)
  show "replicaPortsOf (CreateDeployment dockerUp NewScheduler world0 webTop) =
     Inr [Some [(''80/tcp'', ''9223372036854775807'')],
          Some [(''80/tcp'', ''-9223372036854775808'')]]"
    using dockerUp_ports [of webTop]
    by (simp add: webTop_def web_def nginx_def upt_2_3 replicaSpec_def replicaPorts_def
          parse_examples addInt_def itoa_def natDigits.simps)
  show "replicaPortsOf (CreateDeployment dockerUp NewScheduler world0 webBeyond) =
     Inr [Some [(''80/tcp'', ''0'')], Some [(''80/tcp'', ''1'')]]"
    using dockerUp_ports [of webBeyond]
    by (simp add: webBeyond_def web_def nginx_def upt_2_3 replicaSpec_def replicaPorts_def
          parse_examples addInt_def itoa_def natDigits.simps)
qed

subsection \<open>The replica count\<close>

text \<open>
  C10, as the code has it. With a fresh name and \<open>Replicas = 0\<close>, \<open>CreateDeployment\<close> called
  directly returns no error: it makes no runtime call, registers a deployment with no
  replicas and status \<open>running\<close>, and returns it. The bounds \<open>1 \<le> Replicas \<le> 100\<close> are
  checked by the HTTP handler only, which answers 400 without reaching the scheduler.
\<close>

theorem zero_replicas_registered:
  assumes fresh: "\<forall>(key, d) \<in> set (deployments s). d_Name d \<noteq> ds_Name spec"
    and zero: "ds_Replicas spec = 0"
  shows "(\<exists>d w'. CreateDeployment E s w spec =
              (Inr d, s\<lparr>deployments := AList.update (d_ID d) d (deployments s)\<rparr>, w') \<and>
            d_Name d = ds_Name spec \<and> d_Replicas d = [] \<and> d_Status d = ''running'' \<and>
            calls w' = calls w) \<and>
         (\<forall>r. r < 1 \<or> 100 < r \<longrightarrow>
            createDeploymentHandler E s w (Some (spec\<lparr>ds_Replicas := r\<rparr>)) =
              ((StatusBadRequest, None), s, w))"
proof
  show "\<exists>d w'. CreateDeployment E s w spec =
              (Inr d, s\<lparr>deployments := AList.update (d_ID d) d (deployments s)\<rparr>, w') \<and>
            d_Name d = ds_Name spec \<and> d_Replicas d = [] \<and> d_Status d = ''running'' \<and>
            calls w' = calls w"
    using fresh_not_taken [OF fresh] zero
    by (simp add: CreateDeployment_def newDeployment_def generateID_def timeNow_def Let_def
          createReplicas.simps [of E spec 0])
  show "\<forall>r. r < 1 \<or> 100 < r \<longrightarrow>
            createDeploymentHandler E s w (Some (spec\<lparr>ds_Replicas := r\<rparr>)) =
              ((StatusBadRequest, None), s, w)"
    by (auto simp: createDeploymentHandler_def)
qed

theorem zero_replicas_registered_witness:
  "(\<exists>d w'. CreateDeployment dockerUp NewScheduler world0 (web\<lparr>ds_Replicas := 0\<rparr>) =
              (Inr d, NewScheduler\<lparr>deployments := AList.update (d_ID d) d (deployments NewScheduler)\<rparr>, w') \<and>
            d_Name d = ''web'' \<and> d_Replicas d = [] \<and> d_Status d = ''running'' \<and>
            calls w' = calls world0) \<and>
   createDeploymentHandler dockerUp NewScheduler world0 (Some (web\<lparr>ds_Replicas := 0\<rparr>)) =
     ((StatusBadRequest, None), NewScheduler, world0)"
proof -
  have 1: "\<forall>(key, d) \<in> set (deployments NewScheduler). d_Name d \<noteq> ds_Name (web\<lparr>ds_Replicas := 0\<rparr>)"
    by (simp add: NewScheduler_def)
  have 2: "ds_Replicas (web\<lparr>ds_Replicas := 0\<rparr>) = 0"
    by simp
  have 3: "(0::int) < 1 \<or> 100 < (0::int)"
    by simp
  from zero_replicas_registered [OF 1 2, of dockerUp world0] 1 3 show ?thesis
    by (auto simp: web_def)
qed

text \<open>
  The claim C10 as it was stated covers every \<open>Replicas \<le> 0\<close>. With \<open>Replicas = -1\<close> the
  call panics in \<open>make\<close>: nothing is returned and nothing is registered.
\<close>

theorem negative_replicas_panic:
  "CreateDeployment dockerUp NewScheduler world0 (web\<lparr>ds_Replicas := - 1\<rparr>) =
     (Inl (Panic ''makeslice: cap out of range''), NewScheduler, world0\<lparr>ticks := 1\<rparr>)"
  by (simp add: CreateDeployment_def deploymentNameTaken_def NewScheduler_def newDeployment_def
        generateID_def timeNow_def world0_def web_def Let_def)


subsection \<open>Rollback\<close>


lemma replicaSpec_Replicas [simp]:
  "replicaSpec (spec\<lparr>ds_Replicas := n\<rparr>) i = replicaSpec spec i"
  by (simp add: replicaSpec_def)

lemma createReplicas_prefix:
  "createReplicas E (spec\<lparr>ds_Replicas := int k\<rparr>) i d w = (Inr dk, wk) \<Longrightarrow> i \<le> k \<Longrightarrow>
   int k \<le> ds_Replicas spec \<Longrightarrow>
     createReplicas E spec i d w = createReplicas E spec k dk wk"
proof (induction "k - i" arbitrary: i d w)
  case 0
  then have "i = k" by simp
  with "0.prems"(1) show ?case
    by (simp add: createReplicas.simps [of E "spec\<lparr>ds_Replicas := int k\<rparr>" k])
next
  case (Suc n)
  then have lt: "i < k" by simp
  from Suc.prems(1) lt obtain c w1 w2 where
    mc: "Manager_Create E w (replicaSpec spec i) = (Inr c, w1)" and
    ms: "Manager_Start E w1 (c_ID c) = (None, w2)" and
    rec: "createReplicas E (spec\<lparr>ds_Replicas := int k\<rparr>) (Suc i)
            (d\<lparr>d_Replicas := d_Replicas d @ [c\<lparr>c_Status := ''running''\<rparr>]\<rparr>) w2 = (Inr dk, wk)"
    by (auto simp: createReplicas.simps [of E "spec\<lparr>ds_Replicas := int k\<rparr>" i]
             split: prod.splits sum.splits option.splits)
  have "n = k - Suc i" using Suc.hyps(2) by simp
  from Suc.hyps(1) [OF this rec] lt Suc.prems(3)
  have "createReplicas E spec (Suc i)
          (d\<lparr>d_Replicas := d_Replicas d @ [c\<lparr>c_Status := ''running''\<rparr>]\<rparr>) w2 =
        createReplicas E spec k dk wk"
    by simp
  moreover have "int i < ds_Replicas spec"
    using lt Suc.prems(3) by simp
  ultimately show ?case
    by (simp add: createReplicas.simps [of E spec i] mc ms)
qed

lemma createReplicas_fails_at:
  assumes k: "int k < ds_Replicas spec"
    and fails: "(\<exists>err. Manager_Create E wk (replicaSpec spec k) = (Inl err, w3)) \<or>
       (\<exists>c w1 err. Manager_Create E wk (replicaSpec spec k) = (Inr c, w1) \<and>
                    Manager_Start E w1 (c_ID c) = (Some err, w3))"
  shows "\<exists>e. (fst (createReplicas E spec k dk wk) = Inl (ReplicaCreateFailed k e) \<or>
              fst (createReplicas E spec k dk wk) = Inl (ReplicaStartFailed k e)) \<and>
             snd (createReplicas E spec k dk wk) = snd (cleanupDeployment E (d_Replicas dk) w3)"
  using fails
proof
  assume "\<exists>err. Manager_Create E wk (replicaSpec spec k) = (Inl err, w3)"
  then show ?thesis
    using k by (auto simp: createReplicas.simps [of E spec k])
next
  assume "\<exists>c w1 err. Manager_Create E wk (replicaSpec spec k) = (Inr c, w1) \<and>
                    Manager_Start E w1 (c_ID c) = (Some err, w3)"
  then show ?thesis
    using k by (auto simp: createReplicas.simps [of E spec k])
qed

text \<open>
  C2. Let the name be fresh, and let the runtime fail at replica index \<open>k\<close>: the first \<open>k\<close>
  rounds of the loop succeed (they leave the deployment \<open>dk\<close> and the world \<open>wk\<close>), and
  in round \<open>k\<close> either \<open>Create\<close> fails or \<open>Create\<close> succeeds and \<open>Start\<close> fails, leaving
  the world \<open>w3\<close>. Then \<open>CreateDeployment\<close> returns an error that carries the index \<open>k\<close>,
  the registry is returned unchanged, \<open>dk\<close> holds exactly the \<open>k\<close> replicas of the indices
  below \<open>k\<close>, and the calls made after the failure are exactly \<open>Stop\<close> then \<open>Remove\<close> for
  each of them, in order.
\<close>

theorem create_deployment_rollback:
  assumes fresh: "\<forall>(key, d) \<in> set (deployments s). d_Name d \<noteq> ds_Name spec"
    and k: "int k < ds_Replicas spec"
    and init: "newDeployment E w spec = (Inr d0, w0)"
    and first: "createReplicas E (spec\<lparr>ds_Replicas := int k\<rparr>) 0 d0 w0 = (Inr dk, wk)"
    and fails: "(\<exists>err. Manager_Create E wk (replicaSpec spec k) = (Inl err, w3)) \<or>
       (\<exists>c w1 err. Manager_Create E wk (replicaSpec spec k) = (Inr c, w1) \<and>
                    Manager_Start E w1 (c_ID c) = (Some err, w3))"
  shows "\<exists>err w'. CreateDeployment E s w spec = (Inl err, s, w') \<and>
           (\<exists>e. err = ReplicaCreateFailed k e \<or> err = ReplicaStartFailed k e) \<and>
           kindOf err = RuntimeError \<and>
           length (d_Replicas dk) = k \<and>
           (\<forall>j < k. c_Name (d_Replicas dk ! j) = ds_Name spec @ ''-'' @ itoa (int j)) \<and>
           calls w' = calls w3 @ cleanupCalls (d_Replicas dk)"
proof -
  have d0: "d_Replicas d0 = []"
    using init by (auto simp: newDeployment_def generateID_def timeNow_def Let_def split: if_splits)
  from createReplicas_Inr [OF first] d0
  have len: "length (d_Replicas dk) = k"
    and ok: "\<forall>j < length (d_Replicas dk). replicaOk (spec\<lparr>ds_Replicas := int k\<rparr>) j (d_Replicas dk ! j)"
    by auto
  have names: "\<forall>j < k. c_Name (d_Replicas dk ! j) = ds_Name spec @ ''-'' @ itoa (int j)"
    using ok len by (simp add: replicaOk_def replicaSpec_def)
  have cont: "createReplicas E spec 0 d0 w0 = createReplicas E spec k dk wk"
    using createReplicas_prefix [OF first] k by simp
  from createReplicas_fails_at [OF k fails, of dk] obtain e where
    e: "fst (createReplicas E spec k dk wk) = Inl (ReplicaCreateFailed k e) \<or>
        fst (createReplicas E spec k dk wk) = Inl (ReplicaStartFailed k e)"
       "snd (createReplicas E spec k dk wk) = snd (cleanupDeployment E (d_Replicas dk) w3)"
    by blast
  obtain w' where w': "cleanupDeployment E (d_Replicas dk) w3 = (None, w')"
    "calls w' = calls w3 @ cleanupCalls (d_Replicas dk)"
    using cleanupDeployment_result by blast
  obtain err where err: "createReplicas E spec k dk wk = (Inl err, w')"
    "err = ReplicaCreateFailed k e \<or> err = ReplicaStartFailed k e"
    using e w' by (cases "createReplicas E spec k dk wk") auto
  have "CreateDeployment E s w spec = (Inl err, s, w')"
    using fresh_not_taken [OF fresh] by (simp add: CreateDeployment_def init cont err)
  moreover have "kindOf err = RuntimeError"
    using err(2) by auto
  ultimately show ?thesis
    using err(2) len names w'(2) by blast
qed




lemma createReplicas_step:
  "int i < ds_Replicas spec \<Longrightarrow> Manager_Create E w (replicaSpec spec i) = (Inr c, w1) \<Longrightarrow>
   Manager_Start E w1 (c_ID c) = (None, w2) \<Longrightarrow>
     createReplicas E spec i d w =
       createReplicas E spec (Suc i) (d\<lparr>d_Replicas := d_Replicas d @ [c\<lparr>c_Status := ''running''\<rparr>]\<rparr>) w2"
  by (simp add: createReplicas.simps [of E spec i])

lemma createReplicas_done:
  "\<not> int i < ds_Replicas spec \<Longrightarrow> createReplicas E spec i d w = (Inr d, w)"
  by (simp add: createReplicas.simps [of E spec i])

lemma dockerFlaky_create:
  "cs_Name sp \<noteq> ''web-2'' \<Longrightarrow> \<exists>c w1. Manager_Create dockerFlaky w sp = (Inr c, w1)"
  by (simp add: Manager_Create_def dockerFlaky_def dockerUp_def portBindings_ok timeNow_def Let_def)

lemma dockerFlaky_start:
  "\<exists>w1. Manager_Start dockerFlaky w cid = (None, w1)"
  by (simp add: Manager_Start_def dockerFlaky_def dockerUp_def)

lemma dockerFlaky_refuses:
  "cs_Name sp = ''web-2'' \<Longrightarrow>
     Manager_Create dockerFlaky w sp = (Inl DockerError, w\<lparr>calls := calls w @ [Create sp]\<rparr>)"
  by (simp add: Manager_Create_def dockerFlaky_def dockerUp_def portBindings_ok Let_def)

lemma web_replica_names:
  "cs_Name (replicaSpec web 0) = ''web-0''" "cs_Name (replicaSpec web (Suc 0)) = ''web-1''"
  "cs_Name (replicaSpec web 2) = ''web-2''"
  by (simp_all add: replicaSpec_def web_def nginx_def itoa_def natDigits.simps)

theorem create_deployment_rollback_witness:
  "\<exists>err w'. CreateDeployment dockerFlaky NewScheduler world0 web = (Inl err, NewScheduler, w') \<and>
     (\<exists>e. err = ReplicaCreateFailed 2 e \<or> err = ReplicaStartFailed 2 e)"
proof -
  let ?web2 = "web\<lparr>ds_Replicas := int 2\<rparr>"
  have 1: "\<forall>(key, d) \<in> set (deployments NewScheduler). d_Name d \<noteq> ds_Name web"
    by (simp add: NewScheduler_def)
  have 2: "int 2 < ds_Replicas web"
    by (simp add: web_def)
  obtain d0 w0 where 3: "newDeployment dockerFlaky world0 web = (Inr d0, w0)"
    by (simp add: newDeployment_def generateID_def timeNow_def Let_def web_def dockerFlaky_def
          dockerUp_def)
  obtain c0 w1 where c0: "Manager_Create dockerFlaky w0 (replicaSpec ?web2 0) = (Inr c0, w1)"
    using dockerFlaky_create [of "replicaSpec web 0" w0] by (auto simp: web_replica_names)
  obtain w2 where s0: "Manager_Start dockerFlaky w1 (c_ID c0) = (None, w2)"
    using dockerFlaky_start by blast
  let ?d1 = "d0\<lparr>d_Replicas := d_Replicas d0 @ [c0\<lparr>c_Status := ''running''\<rparr>]\<rparr>"
  obtain c1 w3 where c1: "Manager_Create dockerFlaky w2 (replicaSpec ?web2 (Suc 0)) = (Inr c1, w3)"
    using dockerFlaky_create [of "replicaSpec web (Suc 0)" w2] by (auto simp: web_replica_names)
  obtain w4 where s1: "Manager_Start dockerFlaky w3 (c_ID c1) = (None, w4)"
    using dockerFlaky_start by blast
  let ?d2 = "?d1\<lparr>d_Replicas := d_Replicas ?d1 @ [c1\<lparr>c_Status := ''running''\<rparr>]\<rparr>"
  have "createReplicas dockerFlaky ?web2 0 d0 w0 = createReplicas dockerFlaky ?web2 (Suc 0) ?d1 w2"
    by (rule createReplicas_step [OF _ c0 s0]) simp
  also have "\<dots> = createReplicas dockerFlaky ?web2 (Suc (Suc 0)) ?d2 w4"
    by (rule createReplicas_step [OF _ c1 s1]) simp
  also have "\<dots> = (Inr ?d2, w4)"
    by (rule createReplicas_done) simp
  finally have 4: "createReplicas dockerFlaky ?web2 0 d0 w0 = (Inr ?d2, w4)" .
  have 5: "(\<exists>err. Manager_Create dockerFlaky w4 (replicaSpec web 2)
                    = (Inl err, w4\<lparr>calls := calls w4 @ [Create (replicaSpec web 2)]\<rparr>)) \<or>
           (\<exists>c w1 err. Manager_Create dockerFlaky w4 (replicaSpec web 2) = (Inr c, w1) \<and>
              Manager_Start dockerFlaky w1 (c_ID c)
                = (Some err, w4\<lparr>calls := calls w4 @ [Create (replicaSpec web 2)]\<rparr>))"
    using dockerFlaky_refuses [of "replicaSpec web 2" w4] by (simp add: web_replica_names)
  from create_deployment_rollback [OF 1 2 3 4 5] show ?thesis
    by auto
qed



subsection \<open>Parsing the base host port\<close>

text \<open>
  C9. \<open>mustParseInt\<close> never panics: it returns an \<open>int\<close> for every string, the error of
  \<open>Sscanf\<close> being dropped. After leading spaces (tab, vertical tab, form feed, carriage
  return, space) the digits of the string, with one sign before them if there is one, are
  read up to the first character that is not a digit, and their value is returned; what
  follows them is ignored. The result is 0 when the value is outside the range of \<open>int\<close>,
  and when no integer can be scanned: after the spaces the string ends, or has a sign not
  followed by a digit, or has an ASCII character (a newline, a letter) that is neither a
  digit nor a sign. Consequently, when the base host port of a declared port \<open>p\<close> has no
  integer to scan, and \<open>CreateDeployment\<close> is called with a fresh name and a number of
  replicas that can be allocated, and every \<open>Create\<close> and \<open>Start\<close> call of the run
  succeeds, the call does not fail, and replica \<open>i\<close> gets for \<open>p\<close> the host port that is the
  decimal rendering of \<open>0 + i\<close>.
\<close>

theorem mustParseInt_never_panics:
  "minInt \<le> mustParseInt s \<and> mustParseInt s \<le> maxInt \<and>
   (list_all asciiSpace ws \<and> list_all isDigit ds \<and> ds \<noteq> [] \<and>
    (rest = [] \<or> \<not> isDigit (hd rest)) \<longrightarrow>
      mustParseInt (ws @ ds @ rest) = (if decimalValue ds \<le> maxInt then decimalValue ds else 0) \<and>
      mustParseInt (ws @ CHR ''+'' # ds @ rest) =
        (if decimalValue ds \<le> maxInt then decimalValue ds else 0) \<and>
      mustParseInt (ws @ CHR ''-'' # ds @ rest) =
        (if decimalValue ds \<le> maxInt + 1 then - decimalValue ds else 0)) \<and>
   (list_all asciiSpace ws \<and> noIntegerAt t \<longrightarrow> mustParseInt (ws @ t) = 0) \<and>
   ((\<forall>(key, d) \<in> set (deployments sch). d_Name d \<noteq> ds_Name spec) \<and>
    0 \<le> ds_Replicas spec \<and> 8 * ds_Replicas spec < 2 ^ 64 \<and>
    8 * ds_Replicas spec \<le> int (allocLimit E) \<and>
    CreateDeployment E sch w spec = (r, sch', w') \<and> runSucceeds E w w' \<and>
    portsWellFormed (ds_Container spec) \<and> cs_Ports (ds_Container spec) = Some ps \<and>
    (p, ws @ t) \<in> set ps \<and> list_all asciiSpace ws \<and> noIntegerAt t \<longrightarrow>
      (\<exists>d. r = Inr d \<and> int (length (d_Replicas d)) = ds_Replicas spec \<and>
         (\<forall>i < length (d_Replicas d).
            \<exists>rp h. c_Ports (d_Replicas d ! i) = Some rp \<and> map_of rp p = Some h \<and>
                   renders h (int i))))"
proof (intro conjI impI)
  show "minInt \<le> mustParseInt s" "mustParseInt s \<le> maxInt"
    using mustParseInt_range by blast+
next
  assume a: "list_all asciiSpace ws \<and> list_all isDigit ds \<and> ds \<noteq> [] \<and>
    (rest = [] \<or> \<not> isDigit (hd rest))"
  then have d: "list_all isDigit ds" "ds \<noteq> []" "rest = [] \<or> \<not> isDigit (hd rest)" by blast+
  show "mustParseInt (ws @ ds @ rest) = (if decimalValue ds \<le> maxInt then decimalValue ds else 0)"
    using a by (simp add: mustParseInt_def Sscanf_d_ascii Sscanf_d_integer(1) [OF d])
  show "mustParseInt (ws @ CHR ''+'' # ds @ rest) =
        (if decimalValue ds \<le> maxInt then decimalValue ds else 0)"
    using a by (simp add: mustParseInt_def Sscanf_d_ascii Sscanf_d_integer(2) [OF d])
  show "mustParseInt (ws @ CHR ''-'' # ds @ rest) =
        (if decimalValue ds \<le> maxInt + 1 then - decimalValue ds else 0)"
    using a by (simp add: mustParseInt_def Sscanf_d_ascii Sscanf_d_integer(3) [OF d])
next
  assume "list_all asciiSpace ws \<and> noIntegerAt t"
  then show "mustParseInt (ws @ t) = 0"
    by (simp add: mustParseInt_no_integer)
next
  assume a: "(\<forall>(key, d) \<in> set (deployments sch). d_Name d \<noteq> ds_Name spec) \<and>
    0 \<le> ds_Replicas spec \<and> 8 * ds_Replicas spec < 2 ^ 64 \<and>
    8 * ds_Replicas spec \<le> int (allocLimit E) \<and>
    CreateDeployment E sch w spec = (r, sch', w') \<and> runSucceeds E w w' \<and>
    portsWellFormed (ds_Container spec) \<and> cs_Ports (ds_Container spec) = Some ps \<and>
    (p, ws @ t) \<in> set ps \<and> list_all asciiSpace ws \<and> noIntegerAt t"
  then have zero: "mustParseInt (ws @ t) = 0"
    by (simp add: mustParseInt_no_integer)
  from a have fresh: "\<forall>(key, d) \<in> set (deployments sch). d_Name d \<noteq> ds_Name spec"
    and count: "0 \<le> ds_Replicas spec" "8 * ds_Replicas spec < 2 ^ 64"
      "8 * ds_Replicas spec \<le> int (allocLimit E)"
    and run: "CreateDeployment E sch w spec = (r, sch', w')" and ok: "runSucceeds E w w'"
    by blast+
  from CreateDeployment_run [OF fresh count run ok] obtain d where
    res: "r = Inr d" and
    len: "length (d_Replicas d) = nat (ds_Replicas spec)" and
    rok: "\<forall>j < length (d_Replicas d). replicaOk spec j (d_Replicas d ! j)"
    by blast
  have dist: "distinct (map fst ps)"
    using a by (auto simp: portsWellFormed_def)
  have "\<exists>rp h. c_Ports (d_Replicas d ! i) = Some rp \<and> map_of rp p = Some h \<and> renders h (int i)"
    if i: "i < length (d_Replicas d)" for i
  proof -
    have "int i \<le> maxInt"
      using i len count by (simp add: maxInt_def)
    then have "addInt (mustParseInt (ws @ t)) (int i) = int i"
      by (simp add: zero addInt_def maxInt_def)
    moreover have "map_of (replicaPorts ps i) p =
        Some (itoa (addInt (mustParseInt (ws @ t)) (int i)))"
      using dist a by (intro map_of_replicaPorts) auto
    moreover have "c_Ports (d_Replicas d ! i) = Some (replicaPorts ps i)"
      using rok i a by (simp add: replicaOk_def replicaSpec_def)
    ultimately show ?thesis using renders_itoa [of "int i"] by simp
  qed
  moreover have "int (length (d_Replicas d)) = ds_Replicas spec"
    using len count by simp
  ultimately show "\<exists>d. r = Inr d \<and> int (length (d_Replicas d)) = ds_Replicas spec \<and>
         (\<forall>i < length (d_Replicas d).
            \<exists>rp h. c_Ports (d_Replicas d ! i) = Some rp \<and> map_of rp p = Some h \<and>
                   renders h (int i))"
    using res by blast
qed

theorem mustParseInt_never_panics_witness:
  "mustParseInt '' 9000abc'' = 9000 \<and> mustParseInt '' +9000abc'' = 9000 \<and>
   mustParseInt '' -9000abc'' = - 9000 \<and> mustParseInt '' -x'' = 0 \<and>
   mustParseInt ''http'' = 0 \<and> minInt \<le> mustParseInt ''http'' \<and> mustParseInt ''http'' \<le> maxInt \<and>
   replicaPortsOf (CreateDeployment dockerUp NewScheduler world0 webNamedPort) =
     Inr [Some [(''80/tcp'', ''0'')], Some [(''80/tcp'', ''1'')], Some [(''80/tcp'', ''2'')]] \<and>
   (\<exists>d. fst (CreateDeployment dockerUp NewScheduler world0 webNamedPort) = Inr d \<and>
      int (length (d_Replicas d)) = 3 \<and>
      (\<forall>i < length (d_Replicas d).
         \<exists>rp h. c_Ports (d_Replicas d ! i) = Some rp \<and> map_of rp ''80/tcp'' = Some h \<and>
                renders h (int i)))"
proof -
  obtain r s' w' where
    run: "CreateDeployment dockerUp NewScheduler world0 webNamedPort = (r, s', w')"
    by (cases "CreateDeployment dockerUp NewScheduler world0 webNamedPort")
  have 1: "list_all asciiSpace '' '' \<and> list_all isDigit ''9000'' \<and> ''9000'' \<noteq> [] \<and>
    (''abc'' = [] \<or> \<not> isDigit (hd ''abc''))"
    by (simp add: asciiSpace_def isDigit_def)
  have 2: "list_all asciiSpace '' '' \<and> noIntegerAt ''-x''"
    by (simp add: asciiSpace_def noIntegerAt_def isDigit_def)
  have 3: "decimalValue ''9000'' = 9000" "decimalValue ''9000'' \<le> maxInt"
    by (simp_all add: decimalValue_def digitVal_def maxInt_def)
  have 4: "list_all asciiSpace [] \<and> noIntegerAt ''http''"
    by (simp add: asciiSpace_def noIntegerAt_def isDigit_def)
  have 5: "(\<forall>(key, d) \<in> set (deployments NewScheduler). d_Name d \<noteq> ds_Name webNamedPort) \<and>
    0 \<le> ds_Replicas webNamedPort \<and> 8 * ds_Replicas webNamedPort < 2 ^ 64 \<and>
    8 * ds_Replicas webNamedPort \<le> int (allocLimit dockerUp) \<and>
    CreateDeployment dockerUp NewScheduler world0 webNamedPort = (r, s', w') \<and>
    runSucceeds dockerUp world0 w' \<and>
    portsWellFormed (ds_Container webNamedPort) \<and>
    cs_Ports (ds_Container webNamedPort) = Some [(''80/tcp'', ''http'')] \<and>
    (''80/tcp'', [] @ ''http'') \<in> set [(''80/tcp'', ''http'')] \<and>
    list_all asciiSpace [] \<and> noIntegerAt ''http''"
    using 4 run runSucceeds_always [OF dockerUp_always]
    by (simp add: NewScheduler_def webNamedPort_def web_def nginx_def dockerUp_def
          portsWellFormed_def)
  have 6: "ds_Replicas webNamedPort = 3"
    by (simp add: webNamedPort_def web_def)
  have 7: "replicaPortsOf (CreateDeployment dockerUp NewScheduler world0 webNamedPort) =
     Inr [Some [(''80/tcp'', ''0'')], Some [(''80/tcp'', ''1'')], Some [(''80/tcp'', ''2'')]]"
    using dockerUp_ports [of webNamedPort]
    by (simp add: webNamedPort_def web_def nginx_def upt_2_3 replicaSpec_def replicaPorts_def
          mustParseInt_http addInt_def itoa_def natDigits.simps)
  note a = mustParseInt_never_panics [of "''http''" "'' ''" "''9000''" "''abc''" "''-x''"]
  note b = mustParseInt_never_panics [of "''http''" "[]" "''9000''" "''abc''" "''http''" NewScheduler
      webNamedPort dockerUp world0 r s' w' "[(''80/tcp'', ''http'')]" "''80/tcp''"]
  note a1 = a [THEN conjunct2, THEN conjunct2, THEN conjunct1]
  note a2 = a [THEN conjunct2, THEN conjunct2, THEN conjunct2, THEN conjunct1]
  note b0 = b [THEN conjunct1] b [THEN conjunct2, THEN conjunct1]
  note b2 = b [THEN conjunct2, THEN conjunct2, THEN conjunct2, THEN conjunct1]
  note b3 = b [THEN conjunct2, THEN conjunct2, THEN conjunct2, THEN conjunct2, THEN mp, OF 5]
  have c1: "mustParseInt '' 9000abc'' = 9000" "mustParseInt '' +9000abc'' = 9000"
    "mustParseInt '' -9000abc'' = - 9000"
    using a1 1 3 by simp_all
  have c2: "mustParseInt '' -x'' = 0"
    using a2 2 by simp
  have c3: "mustParseInt ''http'' = 0"
    using b2 4 by simp
  have c4: "\<exists>d. fst (CreateDeployment dockerUp NewScheduler world0 webNamedPort) = Inr d \<and>
      int (length (d_Replicas d)) = 3 \<and>
      (\<forall>i < length (d_Replicas d).
         \<exists>rp h. c_Ports (d_Replicas d ! i) = Some rp \<and> map_of rp ''80/tcp'' = Some h \<and>
                renders h (int i))"
    using b3 by (simp add: run 6)
  from c1 c2 c3 c4 b0 7 show ?thesis
    by (intro conjI)
qed

subsection \<open>The checks of a new service\<close>


lemma portFault_Cons:
  "portFault U (port # ports) (Suc i) = portFault (insert (sp_Port port) U) ports i"
  by (simp add: portFault_def Let_def)

lemma portFault_0_None:
  "portFault (set used) (port # ports) 0 = None \<Longrightarrow>
     checkOwnPorts (port # ports) used = checkOwnPorts ports (sp_Port port # used)"
  by (auto simp: portFault_def Let_def split: if_splits)



lemma checkOwnPorts_no_fault:
  "\<forall>i < length ports. portFault (set used) ports i = None \<Longrightarrow> checkOwnPorts ports used = None"
proof (induction ports arbitrary: used)
  case Nil
  then show ?case by simp
next
  case (Cons port ports)
  from Cons.prems have f0: "portFault (set used) (port # ports) 0 = None"
    by auto
  have "checkOwnPorts ports (sp_Port port # used) = None"
  proof (rule Cons.IH, intro allI impI)
    fix i assume "i < length ports"
    then have "portFault (set used) (port # ports) (Suc i) = None"
      using Cons.prems by simp
    then show "portFault (set (sp_Port port # used)) ports i = None"
      by (simp add: portFault_Cons)
  qed
  with portFault_0_None [OF f0] show ?case by simp
qed

lemma matchNewPort_None: "matchNewPort p ports = None \<longleftrightarrow> p \<notin> sp_Port ` set ports"
  by (induction ports) auto

lemma matchNewPort_Some: "matchNewPort p ports = Some q \<Longrightarrow> q = p \<and> p \<in> sp_Port ` set ports"
  by (induction ports) (auto split: if_splits)

lemma checkExistingPorts_Some:
  "checkExistingPorts name eps ports = Some e \<Longrightarrow>
     \<exists>p. e = PortInUseByService p name \<and> p \<in> sp_Port ` set eps \<and> p \<in> sp_Port ` set ports"
proof (induction eps)
  case Nil
  then show ?case by simp
next
  case (Cons ep eps)
  show ?case
  proof (cases "matchNewPort (sp_Port ep) ports")
    case None
    with Cons show ?thesis by auto
  next
    case (Some q)
    from matchNewPort_Some [OF Some] Cons.prems Some show ?thesis by auto
  qed
qed


lemma checkServices_Some:
  "checkServices svcs ports = Some e \<Longrightarrow>
     \<exists>p key svc. (key, svc) \<in> set svcs \<and> e = PortInUseByService p (svc_Name svc) \<and>
        p \<in> sp_Port ` set (ss_Ports (svc_Spec svc)) \<and> p \<in> sp_Port ` set ports"
proof (induction svcs)
  case Nil
  then show ?case by simp
next
  case (Cons a svcs)
  obtain key svc where a: "a = (key, svc)" by (cases a)
  show ?case
  proof (cases "checkExistingPorts (svc_Name svc) (ss_Ports (svc_Spec svc)) ports")
    case None
    with Cons.prems a have "checkServices svcs ports = Some e" by simp
    from Cons.IH [OF this] show ?thesis by auto
  next
    case (Some err)
    with Cons.prems a have "err = e" by simp
    with checkExistingPorts_Some [OF Some] a show ?thesis by auto
  qed
qed


lemma hostPortBound_Cons:
  "hostPortBound ((cp', hp') # ps) p cp \<longleftrightarrow>
     (cp' = cp \<and> Atoi hp' = Some p) \<or> hostPortBound ps p cp"
  by (auto simp: hostPortBound_def)

lemma checkReplicaPorts_Some:
  "checkReplicaPorts name ps ports = Some e \<Longrightarrow>
     \<exists>p cp. e = PortInUseByDeployment p name cp \<and> hostPortBound ps p cp \<and>
        p \<in> sp_Port ` set ports"
proof (induction ps)
  case Nil
  then show ?case by simp
next
  case (Cons a ps)
  obtain containerPort hostPortStr where a: "a = (containerPort, hostPortStr)" by (cases a)
  show ?case
  proof (cases "Atoi hostPortStr")
    case None
    with Cons.prems a have "checkReplicaPorts name ps ports = Some e" by simp
    from Cons.IH [OF this] show ?thesis
      unfolding a hostPortBound_Cons by blast
  next
    case (Some hostPort)
    note atoi = this
    show ?thesis
    proof (cases "matchNewPort hostPort ports")
      case None
      with Cons.prems a atoi have "checkReplicaPorts name ps ports = Some e" by simp
      from Cons.IH [OF this] show ?thesis
        unfolding a hostPortBound_Cons by blast
    next
      case (Some q)
      with Cons.prems a atoi have "e = PortInUseByDeployment q name containerPort" by simp
      moreover from matchNewPort_Some [OF Some] have "q = hostPort" "hostPort \<in> sp_Port ` set ports"
        by simp_all
      ultimately show ?thesis
        unfolding a hostPortBound_Cons using atoi by blast
    qed
  qed
qed

lemma checkReplicaPorts_conflict:
  "hostPortBound ps p cp \<Longrightarrow> p \<in> sp_Port ` set ports \<Longrightarrow>
     checkReplicaPorts name ps ports \<noteq> None"
proof (induction ps)
  case Nil
  then show ?case by (simp add: hostPortBound_def)
next
  case (Cons a ps)
  obtain containerPort hostPortStr where a: "a = (containerPort, hostPortStr)" by (cases a)
  from Cons.prems(1) have "(containerPort = cp \<and> Atoi hostPortStr = Some p) \<or> hostPortBound ps p cp"
    unfolding a hostPortBound_Cons .
  then show ?case
  proof
    assume "containerPort = cp \<and> Atoi hostPortStr = Some p"
    moreover have "matchNewPort p ports \<noteq> None"
      using Cons.prems(2) by (simp add: matchNewPort_None)
    ultimately show ?thesis
      by (auto simp: a)
  next
    assume "hostPortBound ps p cp"
    from Cons.IH [OF this Cons.prems(2)] show ?thesis
      by (auto simp: a split: option.splits)
  qed
qed

lemma checkReplicas_Some:
  "checkReplicas name rs ports = Some e \<Longrightarrow>
     \<exists>p cp. e = PortInUseByDeployment p name cp \<and> (\<exists>r \<in> set rs. replicaBindsPort r p cp) \<and>
        p \<in> sp_Port ` set ports"
proof (induction rs)
  case Nil
  then show ?case by simp
next
  case (Cons r rs)
  let ?ps = "case c_Ports r of None \<Rightarrow> [] | Some ps \<Rightarrow> ps"
  show ?case
  proof (cases "checkReplicaPorts name ?ps ports")
    case None
    with Cons.prems have "checkReplicas name rs ports = Some e" by simp
    from Cons.IH [OF this] show ?thesis by auto
  next
    case (Some err)
    with Cons.prems have "err = e" by simp
    with checkReplicaPorts_Some [OF Some] obtain p cp where
      pc: "e = PortInUseByDeployment p name cp" "hostPortBound ?ps p cp" "p \<in> sp_Port ` set ports"
      by blast
    from pc(2) have "c_Ports r = Some ?ps"
      by (cases "c_Ports r") (auto simp: hostPortBound_def)
    with pc(2) have "replicaBindsPort r p cp"
      unfolding replicaBindsPort_def by blast
    with pc(1,3) show ?thesis by auto
  qed
qed

lemma checkReplicas_conflict:
  "r \<in> set rs \<Longrightarrow> replicaBindsPort r p cp \<Longrightarrow> p \<in> sp_Port ` set ports \<Longrightarrow>
     checkReplicas name rs ports \<noteq> None"
proof (induction rs)
  case Nil
  then show ?case by simp
next
  case (Cons r' rs)
  let ?ps = "case c_Ports r' of None \<Rightarrow> [] | Some ps \<Rightarrow> ps"
  from Cons.prems(1) have "r = r' \<or> r \<in> set rs" by auto
  then show ?case
  proof
    assume "r = r'"
    with Cons.prems(2) have "hostPortBound ?ps p cp"
      by (auto simp: replicaBindsPort_def)
    from checkReplicaPorts_conflict [OF this Cons.prems(3), of name] show ?thesis
      by (auto split: option.splits)
  next
    assume "r \<in> set rs"
    from Cons.IH [OF this Cons.prems(2,3)] show ?thesis
      by (auto split: option.splits)
  qed
qed

lemma checkDeployments_Some:
  "checkDeployments ds ports = Some e \<Longrightarrow>
     \<exists>p cp key d. (key, d) \<in> set ds \<and> e = PortInUseByDeployment p (d_Name d) cp \<and>
        (\<exists>r \<in> set (d_Replicas d). replicaBindsPort r p cp) \<and> p \<in> sp_Port ` set ports"
proof (induction ds)
  case Nil
  then show ?case by simp
next
  case (Cons a ds)
  obtain key d where a: "a = (key, d)" by (cases a)
  show ?case
  proof (cases "cs_Ports (ds_Container (d_Spec d)) \<noteq> None \<and>
                checkReplicas (d_Name d) (d_Replicas d) ports \<noteq> None")
    case False
    with Cons.prems a have "checkDeployments ds ports = Some e"
      by (auto split: option.splits if_splits)
    from Cons.IH [OF this] obtain p cp key' d' where
      h: "(key', d') \<in> set ds" "e = PortInUseByDeployment p (d_Name d') cp"
         "\<exists>r \<in> set (d_Replicas d'). replicaBindsPort r p cp" "p \<in> sp_Port ` set ports"
      by blast
    from h(1) have "(key', d') \<in> set (a # ds)" by simp
    with h(2-4) show ?thesis by blast
  next
    case True
    then obtain err where err: "checkReplicas (d_Name d) (d_Replicas d) ports = Some err"
      by auto
    with Cons.prems a True have "err = e" by simp
    with checkReplicas_Some [OF err] obtain p cp where
      h: "e = PortInUseByDeployment p (d_Name d) cp"
         "\<exists>r \<in> set (d_Replicas d). replicaBindsPort r p cp" "p \<in> sp_Port ` set ports"
      by blast
    have "(key, d) \<in> set (a # ds)" using a by simp
    with h show ?thesis by blast
  qed
qed

lemma checkDeployments_conflict:
  "(key, d) \<in> set ds \<Longrightarrow> cs_Ports (ds_Container (d_Spec d)) \<noteq> None \<Longrightarrow>
   r \<in> set (d_Replicas d) \<Longrightarrow> replicaBindsPort r p cp \<Longrightarrow> p \<in> sp_Port ` set ports \<Longrightarrow>
     checkDeployments ds ports \<noteq> None"
proof (induction ds)
  case Nil
  then show ?case by simp
next
  case (Cons a ds)
  obtain key' d' where a: "a = (key', d')" by (cases a)
  from Cons.prems(1) have "(key, d) = a \<or> (key, d) \<in> set ds" by auto
  then show ?case
  proof
    assume "(key, d) = a"
    then have "d' = d" using a by simp
    with checkReplicas_conflict [OF Cons.prems(3-5), of "d_Name d"] Cons.prems(2)
    show ?thesis
      by (auto simp: a)
  next
    assume "(key, d) \<in> set ds"
    from Cons.IH [OF this Cons.prems(2-5)] show ?thesis
      by (auto simp: a split: option.splits)
  qed
qed

lemma fresh_service_not_taken:
  "(\<forall>(key, svc) \<in> set svcs. svc_Name svc \<noteq> name) \<Longrightarrow> \<not> serviceNameTaken svcs name"
  by (auto simp: serviceNameTaken_iff)

lemma CreateService_rejected:
  "\<not> serviceNameTaken (services s) (ss_Name spec) \<Longrightarrow>
   validatePortConflicts s (ss_Ports spec) = Some err \<Longrightarrow>
     CreateService E s w spec = (Inl (PortConflict err), s, w)"
  by (simp add: CreateService_def)

lemma CreateService_accepted:
  "\<not> serviceNameTaken (services s) (ss_Name spec) \<Longrightarrow>
   validatePortConflicts s (ss_Ports spec) = None \<Longrightarrow>
     \<exists>svc w'. CreateService E s w spec =
         (Inr svc, s\<lparr>services := AList.update (svc_ID svc) svc (services s)\<rparr>, w') \<and>
       svc_Name svc = ss_Name spec \<and> svc_Spec svc = spec \<and> svc_Endpoints svc = [] \<and>
       svc_Status svc = ''active'' \<and> calls w' = calls w"
  by (simp add: CreateService_def generateID_def timeNow_def Let_def)



lemma validate_reaches_deployments:
  assumes own: "\<forall>i < length ports. portFault {} ports i = None"
    and nosvc: "\<forall>p \<in> sp_Port ` set ports. \<forall>name. \<not> serviceUsesPort s p name"
  shows "validatePortConflicts s ports = checkDeployments (deployments s) ports"
proof -
  have 1: "checkOwnPorts ports [] = None"
    using checkOwnPorts_no_fault [of ports "[]"] own by simp
  have 2: "checkServices (services s) ports = None"
  proof (cases "checkServices (services s) ports")
    case None
    then show ?thesis .
  next
    case (Some e)
    from checkServices_Some [OF Some] obtain q key' svc' where
      q: "(key', svc') \<in> set (services s)"
      "q \<in> sp_Port ` set (ss_Ports (svc_Spec svc'))" "q \<in> sp_Port ` set ports"
      by blast
    from q(1,2) have "serviceUsesPort s q (svc_Name svc')"
      unfolding serviceUsesPort_def by blast
    with nosvc q(3) show ?thesis by blast
  qed
  from 1 2 show ?thesis by (simp add: validatePortConflicts_def)
qed

lemma checkDeployments_binds:
  assumes "checkDeployments (deployments s) ports = Some e"
  shows "\<exists>q name cp. e = PortInUseByDeployment q name cp \<and> q \<in> sp_Port ` set ports \<and>
           deploymentBindsPort s q name cp"
proof -
  from checkDeployments_Some [OF assms] obtain q cp key d where
    f: "(key, d) \<in> set (deployments s)" "e = PortInUseByDeployment q (d_Name d) cp"
       "\<exists>r \<in> set (d_Replicas d). replicaBindsPort r q cp" "q \<in> sp_Port ` set ports"
    by blast
  from f(1,3) have "deploymentBindsPort s q (d_Name d) cp"
    unfolding deploymentBindsPort_def by blast
  with f(2,4) show ?thesis by blast
qed

lemma deployments_conflict_found:
  assumes inv: "registryPortsDeclared s"
    and conflict: "p \<in> sp_Port ` set ports" "deploymentBindsPort s p name cp"
  shows "\<exists>q name' cp'. q \<in> sp_Port ` set ports \<and> deploymentBindsPort s q name' cp' \<and>
           checkDeployments (deployments s) ports = Some (PortInUseByDeployment q name' cp')"
proof -
  from conflict(2) obtain key d r where
    b: "(key, d) \<in> set (deployments s)" "r \<in> set (d_Replicas d)" "replicaBindsPort r p cp"
    unfolding deploymentBindsPort_def by blast
  from b(3) have "c_Ports r \<noteq> None"
    by (auto simp: replicaBindsPort_def)
  with inv b(1,2) have "cs_Ports (ds_Container (d_Spec d)) \<noteq> None"
    by (auto simp: registryPortsDeclared_def)
  from checkDeployments_conflict [OF b(1) this b(2,3) conflict(1)] obtain e where
    e: "checkDeployments (deployments s) ports = Some e"
    by blast
  from checkDeployments_binds [OF e] e show ?thesis by blast
qed

lemma deployments_no_conflict:
  assumes "\<forall>p \<in> sp_Port ` set ports. \<forall>name cp. \<not> deploymentBindsPort s p name cp"
  shows "checkDeployments (deployments s) ports = None"
proof (cases "checkDeployments (deployments s) ports")
  case None
  then show ?thesis .
next
  case (Some e)
  from checkDeployments_binds [OF Some] assms show ?thesis by blast
qed



subsection \<open>An invariant of the registry\<close>


lemma set_update_subset: "set (AList.update k v al) \<subseteq> insert (k, v) (set al)"
  by (induction al) auto

lemma set_delete_subset: "set (AList.delete k al) \<subseteq> set al"
  by (auto simp: AList.delete_eq)

lemma newDeployment_fields:
  "newDeployment E w spec = (Inr d, w1) \<Longrightarrow> d_Spec d = spec \<and> d_Replicas d = []"
  by (auto simp: newDeployment_def generateID_def timeNow_def Let_def split: if_splits)

lemma CreateDeployment_Inr:
  assumes "CreateDeployment E s w spec = (Inr d, s', w')"
  shows "s' = s\<lparr>deployments := AList.update (d_ID d) d (deployments s)\<rparr> \<and> d_Spec d = spec \<and>
         (\<forall>j < length (d_Replicas d). replicaOk spec j (d_Replicas d ! j))"
proof -
  from assms obtain d0 w1 d1 where
    nd: "newDeployment E w spec = (Inr d0, w1)" and
    cr: "createReplicas E spec 0 d0 w1 = (Inr d1, w')" and
    d: "d = d1\<lparr>d_Status := ''running''\<rparr>" and
    s': "s' = s\<lparr>deployments := AList.update (d_ID d) d (deployments s)\<rparr>"
    by (auto simp: CreateDeployment_def Let_def split: if_splits prod.splits sum.splits)
  from newDeployment_fields [OF nd] have d0: "d_Spec d0 = spec" "d_Replicas d0 = []"
    by auto
  from createReplicas_Inr [OF cr] d0(2)
  have ok: "\<forall>j < length (d_Replicas d1). replicaOk spec j (d_Replicas d1 ! j)"
    and eq: "d1 = d0\<lparr>d_Replicas := d_Replicas d1\<rparr>"
    by auto
  have "d_Spec d1 = spec"
    using d0(1) by (subst eq) simp
  with ok d s' show ?thesis by simp
qed

lemma registryPortsDeclared_new: "registryPortsDeclared NewScheduler"
  by (simp add: registryPortsDeclared_def NewScheduler_def)

lemma registryPortsDeclared_CreateDeployment:
  assumes "CreateDeployment E s w spec = (r, s', w')" "registryPortsDeclared s"
  shows "registryPortsDeclared s'"
proof (cases r)
  case (Inl err)
  with assms(1) have "s' = s"
    by (auto simp: CreateDeployment_def Let_def split: if_splits prod.splits sum.splits)
  with assms(2) show ?thesis by simp
next
  case (Inr d)
  from CreateDeployment_Inr [OF assms(1) [unfolded Inr]]
  have s': "s' = s\<lparr>deployments := AList.update (d_ID d) d (deployments s)\<rparr>"
    and sp: "d_Spec d = spec"
    and ok: "\<forall>j < length (d_Replicas d). replicaOk spec j (d_Replicas d ! j)"
    by auto
  have new: "c_Ports r' = None"
    if "cs_Ports (ds_Container spec) = None" "r' \<in> set (d_Replicas d)" for r'
  proof -
    from that(2) obtain j where "j < length (d_Replicas d)" "r' = d_Replicas d ! j"
      by (auto simp: in_set_conv_nth)
    with ok have "c_Ports r' = cs_Ports (replicaSpec spec j)"
      by (simp add: replicaOk_def)
    with that(1) show ?thesis by (simp add: replicaSpec_def)
  qed
  show ?thesis
    unfolding registryPortsDeclared_def
  proof (intro ballI, clarify)
    fix key d' r'
    assume m: "(key, d') \<in> set (deployments s')"
      and n: "cs_Ports (ds_Container (d_Spec d')) = None" and r': "r' \<in> set (d_Replicas d')"
    from m s' set_update_subset [of "d_ID d" d "deployments s"]
    have "(key, d') = (d_ID d, d) \<or> (key, d') \<in> set (deployments s)"
      by auto
    then show "c_Ports r' = None"
    proof
      assume "(key, d') = (d_ID d, d)"
      with n r' sp new show ?thesis by simp
    next
      assume "(key, d') \<in> set (deployments s)"
      with assms(2) n r' show ?thesis
        by (auto simp: registryPortsDeclared_def)
    qed
  qed
qed

lemma registryPortsDeclared_mono:
  assumes "registryPortsDeclared s" "set (deployments s') \<subseteq> set (deployments s)"
  shows "registryPortsDeclared s'"
  unfolding registryPortsDeclared_def
proof (intro ballI, clarify)
  fix key d r
  assume "(key, d) \<in> set (deployments s')" "cs_Ports (ds_Container (d_Spec d)) = None"
    "r \<in> set (d_Replicas d)"
  moreover from this(1) assms(2) have "(key, d) \<in> set (deployments s)" by auto
  ultimately show "c_Ports r = None"
    using assms(1) by (auto simp: registryPortsDeclared_def)
qed

lemma registryPortsDeclared_DeleteDeployment:
  assumes "DeleteDeployment E s w name = (r, s', w')" "registryPortsDeclared s"
  shows "registryPortsDeclared s'"
proof -
  from assms(1) have "deployments s' = deployments s \<or>
      (\<exists>k. deployments s' = AList.delete k (deployments s))"
    by (auto simp: DeleteDeployment_def split: option.splits prod.splits)
  then have "set (deployments s') \<subseteq> set (deployments s)"
    using set_delete_subset by (metis subset_refl)
  with assms(2) show ?thesis
    by (rule registryPortsDeclared_mono)
qed

lemma registryPortsDeclared_CreateService:
  assumes "CreateService E s w spec = (r, s', w')" "registryPortsDeclared s"
  shows "registryPortsDeclared s'"
proof -
  from assms(1) have "deployments s' = deployments s"
    by (auto simp: CreateService_def Let_def generateID_def timeNow_def
             split: if_splits option.splits)
  with assms(2) show ?thesis
    by (simp add: registryPortsDeclared_def)
qed



subsection \<open>Conflicts with the ports of deployments\<close>


text \<open>
  C5. Let the registry satisfy its invariant, and let a new service pass the name check,
  the checks of its own ports and the check against the registered services. If some
  replica of some registered deployment binds a container port to a host port string that
  \<open>Atoi\<close> reads as one of the new ports, \<open>CreateService\<close> fails with a validation error
  that names such a port, the deployment and the container port. If no host port string
  reads as one of the new ports, \<open>CreateService\<close> succeeds: a string that \<open>Atoi\<close> rejects
  binds nothing (see \<open>hostPortBound\<close>) and is never a conflict.
\<close>

theorem cross_deployment_conflict:
  assumes inv: "registryPortsDeclared s"
    and fresh: "\<forall>(key, svc) \<in> set (services s). svc_Name svc \<noteq> ss_Name spec"
    and own: "\<forall>i < length (ss_Ports spec). portFault {} (ss_Ports spec) i = None"
    and nosvc: "\<forall>p \<in> newPorts spec. \<forall>name. \<not> serviceUsesPort s p name"
  shows "((\<exists>p \<in> newPorts spec. \<exists>name cp. deploymentBindsPort s p name cp) \<longrightarrow>
            (\<exists>q name cp. q \<in> newPorts spec \<and> deploymentBindsPort s q name cp \<and>
               CreateService E s w spec =
                 (Inl (PortConflict (PortInUseByDeployment q name cp)), s, w) \<and>
               kindOf (PortConflict (PortInUseByDeployment q name cp)) = ValidationError)) \<and>
         ((\<forall>p \<in> newPorts spec. \<forall>name cp. \<not> deploymentBindsPort s p name cp) \<longrightarrow>
            (\<exists>svc s' w'. CreateService E s w spec = (Inr svc, s', w')))"
proof (intro conjI impI)
  note nt = fresh_service_not_taken [OF fresh]
  note reach = validate_reaches_deployments [OF own nosvc]
  {
    assume "\<exists>p \<in> newPorts spec. \<exists>name cp. deploymentBindsPort s p name cp"
    then obtain p name cp where "p \<in> newPorts spec" "deploymentBindsPort s p name cp"
      by blast
    from deployments_conflict_found [OF inv this] obtain q name' cp' where
      q: "q \<in> newPorts spec" "deploymentBindsPort s q name' cp'"
         "checkDeployments (deployments s) (ss_Ports spec) = Some (PortInUseByDeployment q name' cp')"
      by blast
    from CreateService_rejected [OF nt, of "PortInUseByDeployment q name' cp'" E w] reach q(3)
    have "CreateService E s w spec = (Inl (PortConflict (PortInUseByDeployment q name' cp')), s, w)"
      by simp
    with q(1,2) show "\<exists>q name cp. q \<in> newPorts spec \<and> deploymentBindsPort s q name cp \<and>
               CreateService E s w spec =
                 (Inl (PortConflict (PortInUseByDeployment q name cp)), s, w) \<and>
               kindOf (PortConflict (PortInUseByDeployment q name cp)) = ValidationError"
      by auto
  }
  {
    assume "\<forall>p \<in> newPorts spec. \<forall>name cp. \<not> deploymentBindsPort s p name cp"
    from deployments_no_conflict [OF this] reach
    have "validatePortConflicts s (ss_Ports spec) = None"
      by simp
    from CreateService_accepted [OF nt this, of E w]
    show "\<exists>svc s' w'. CreateService E s w spec = (Inr svc, s', w')"
      by blast
  }
qed

lemma Atoi_9000: "Atoi ''9000'' = Some 9000"
  by (simp add: Atoi_def ParseInt_def isDigit_def decimalValue_def digitVal_def minInt_def
        maxInt_def)

lemma Atoi_http: "Atoi ''http'' = None"
  by (simp add: Atoi_def ParseInt_def isDigit_def)

lemma registry2_invariant: "registryPortsDeclared registry2"
  by (simp add: registryPortsDeclared_def registry2_def apiDeployment_def webDeployment_def
        webNamedPort_def web_def nginx_def)

lemma registry2_services:
  "serviceUsesPort registry2 p name \<longleftrightarrow> p = 8080 \<and> name = ''front''"
  by (auto simp: serviceUsesPort_def registry2_def frontService_def front_def)

lemma registry2_deployments:
  "deploymentBindsPort registry2 p name cp \<longleftrightarrow> p = 9000 \<and> name = ''web'' \<and> cp = ''80/tcp''"
  by (auto simp: deploymentBindsPort_def replicaBindsPort_def hostPortBound_def registry2_def
        apiDeployment_def webDeployment_def api0_def web0_def Atoi_9000 Atoi_http)

theorem cross_deployment_conflict_witness:
  "CreateService dockerUp registry2 world0 edge =
     (Inl (PortConflict (PortInUseByDeployment 9000 ''web'' ''80/tcp'')), registry2, world0) \<and>
   (\<exists>svc s' w'. CreateService dockerUp registry2 world0 side = (Inr svc, s', w'))"
proof -
  have fresh: "\<forall>(key, svc) \<in> set (services registry2). svc_Name svc \<noteq> ss_Name edge"
    "\<forall>(key, svc) \<in> set (services registry2). svc_Name svc \<noteq> ss_Name side"
    by (simp_all add: registry2_def frontService_def edge_def side_def front_def)
  have own: "\<forall>i < length (ss_Ports edge). portFault {} (ss_Ports edge) i = None"
    "\<forall>i < length (ss_Ports side). portFault {} (ss_Ports side) i = None"
    by (simp_all add: edge_def side_def portFault_def mapping_def)
  have nosvc: "\<forall>p \<in> newPorts edge. \<forall>name. \<not> serviceUsesPort registry2 p name"
    "\<forall>p \<in> newPorts side. \<forall>name. \<not> serviceUsesPort registry2 p name"
    by (simp_all add: registry2_services edge_def side_def mapping_def)
  have hit: "\<exists>p \<in> newPorts edge. \<exists>name cp. deploymentBindsPort registry2 p name cp"
    by (simp add: registry2_deployments edge_def mapping_def)
  have miss: "\<forall>p \<in> newPorts side. \<forall>name cp. \<not> deploymentBindsPort registry2 p name cp"
    by (simp add: registry2_deployments side_def mapping_def)
  from cross_deployment_conflict [OF registry2_invariant fresh(1) own(1) nosvc(1), of dockerUp world0]
    cross_deployment_conflict [OF registry2_invariant fresh(2) own(2) nosvc(2), of dockerUp world0]
    hit miss
  show ?thesis
    by (auto simp: registry2_deployments)
qed



subsection \<open>The order of the checks of a new service\<close>







subsection \<open>The document store\<close>






lemma loadFiles_append:
  "loadFiles C fs dir (xs @ ys) deps warnings =
     (case loadFiles C fs dir xs deps warnings of
        (deps', warnings') \<Rightarrow> loadFiles C fs dir ys deps' warnings')"
  by (induction xs arbitrary: deps warnings) (auto split: sum.splits option.splits)

lemma loadFiles_wellFormed:
  "list_all2 (wellFormedFile C fs dir) names ds \<Longrightarrow>
     loadFiles C fs dir names deps warnings = (deps @ ds, warnings)"
proof (induction names ds arbitrary: deps rule: list_all2_induct)
  case Nil
  then show ?case by simp
next
  case (Cons name names d ds)
  from Cons.hyps(1) obtain data where
    "Ext name = ''.json''" "ReadFile fs dir name = Inr data" "unmarshal C data = Some d"
    by (auto simp: wellFormedFile_def)
  then show ?case
    by (simp add: Cons.IH)
qed

lemma loadFiles_corrupt:
  "corruptFile C fs dir name \<Longrightarrow>
     \<exists>warning. loadFiles C fs dir [name] deps warnings = (deps, warnings @ [warning]) \<and>
       ((\<exists>err. warning = FileUnreadable name err) \<or> warning = FileUnparsable name)"
  by (auto simp: corruptFile_def)

text \<open>
  C7. Let the directory of deployments list the well-formed files \<open>before\<close>, then one
  corrupt file (unreadable or unparsable), then the well-formed files \<open>after\<close>. Then
  \<open>LoadAllDeployments\<close> returns no error and exactly the deployments of the well-formed
  files, in the order of the listing, and it emits exactly one warning, for the corrupt
  file.
\<close>

theorem load_all_skips_corrupt:
  assumes listing: "ReadDir fs [dataDir s, ''deployments''] = Inr (before @ [corrupt] @ after)"
    and good1: "list_all2 (wellFormedFile C fs [dataDir s, ''deployments'']) before ds1"
    and bad: "corruptFile C fs [dataDir s, ''deployments''] corrupt"
    and good2: "list_all2 (wellFormedFile C fs [dataDir s, ''deployments'']) after ds2"
  shows "\<exists>warning. LoadAllDeployments C s fs = (Inr (ds1 @ ds2), [warning]) \<and>
           ((\<exists>err. warning = FileUnreadable corrupt err) \<or> warning = FileUnparsable corrupt) \<and>
           length (ds1 @ ds2) = length before + length after"
proof -
  let ?dir = "[dataDir s, ''deployments'']"
  have 1: "loadFiles C fs ?dir before [] [] = (ds1, [])"
    using loadFiles_wellFormed [OF good1, of "[]" "[]"] by simp
  from loadFiles_corrupt [OF bad, of ds1 "[]"] obtain warning where
    2: "loadFiles C fs ?dir [corrupt] ds1 [] = (ds1, [warning])" and
    which: "(\<exists>err. warning = FileUnreadable corrupt err) \<or> warning = FileUnparsable corrupt"
    by auto
  have 3: "loadFiles C fs ?dir after ds1 [warning] = (ds1 @ ds2, [warning])"
    using loadFiles_wellFormed [OF good2] by simp
  have "loadFiles C fs ?dir (before @ [corrupt] @ after) [] [] = (ds1 @ ds2, [warning])"
    by (simp only: loadFiles_append 1 2 3 prod.case)
  then have "LoadAllDeployments C s fs = (Inr (ds1 @ ds2), [warning])"
    by (simp add: LoadAllDeployments_def listing)
  moreover have "length (ds1 @ ds2) = length before + length after"
    using list_all2_lengthD [OF good1] list_all2_lengthD [OF good2] by simp
  ultimately show ?thesis using which by blast
qed



lemma Ext_examples:
  "Ext ''1000.json'' = ''.json''" "Ext ''2000.json'' = ''.json''" "Ext ''3000.json'' = ''.json''"
  by (simp_all add: Ext_def)

theorem load_all_skips_corrupt_witness:
  "\<exists>warning. LoadAllDeployments nameCodec store disk1 =
     (Inr ([webDeployment] @ [apiDeployment]), [warning]) \<and>
     ((\<exists>err. warning = FileUnreadable ''2000.json'' err) \<or>
      warning = FileUnparsable ''2000.json'') \<and>
     length ([webDeployment] @ [apiDeployment]) = length [''1000.json''] + length [''3000.json'']"
proof -
  have listing: "ReadDir disk1 [dataDir store, ''deployments''] =
                   Inr ([''1000.json''] @ [''2000.json''] @ [''3000.json''])"
    by (simp add: ReadDir_def disk1_def store_def)
  have good1: "list_all2 (wellFormedFile nameCodec disk1 [dataDir store, ''deployments''])
                 [''1000.json''] [webDeployment]"
    by (simp add: wellFormedFile_def Ext_examples ReadFile_def disk1_def store_def nameCodec_def)
  have bad: "corruptFile nameCodec disk1 [dataDir store, ''deployments''] ''2000.json''"
    by (simp add: corruptFile_def Ext_examples ReadFile_def disk1_def store_def nameCodec_def)
  have good2: "list_all2 (wellFormedFile nameCodec disk1 [dataDir store, ''deployments''])
                 [''3000.json''] [apiDeployment]"
    by (simp add: wellFormedFile_def Ext_examples ReadFile_def disk1_def store_def nameCodec_def)
  from load_all_skips_corrupt [OF listing good1 bad good2] show ?thesis .
qed


end
